theory Spec2Isabelle
  imports Complex_Main
begin

section \<open>JavaScript values\<close>

text \<open>
  \<^verbatim>\<open>scripts/review.js\<close> works on values that \<^verbatim>\<open>JSON.parse\<close> produced. A string is
  modelled as the list of its code units, for text whose code units are below 256; a
  number is the value of the double (only its being zero is ever observed by the
  program; a literal past the largest double is \<^verbatim>\<open>Infinity\<close> there and some number other
  than zero here). An object is the list of its own properties, one binding per key, as
  \<^verbatim>\<open>JSON.parse\<close> builds it. \<open>None\<close> of type \<open>json option\<close> stands for \<^verbatim>\<open>undefined\<close>.
\<close>

datatype json =
    JNull
  | JBool bool
  | JNum rat
  | JStr string
  | JArr "json list"
  | JObj "(string \<times> json) list"

text \<open>Truthiness of a value (\<^verbatim>\<open>!v\<close> is its negation).\<close>

fun truthy :: "json option \<Rightarrow> bool" where
  "truthy None = False"
| "truthy (Some JNull) = False"
| "truthy (Some (JBool b)) = b"
| "truthy (Some (JNum n)) = (n \<noteq> 0)"
| "truthy (Some (JStr s)) = (s \<noteq> [])"
| "truthy (Some (JArr xs)) = True"
| "truthy (Some (JObj fs)) = True"

text \<open>
  \<^verbatim>\<open>v.name\<close> for a value \<open>v\<close> that is not \<^verbatim>\<open>null\<close> and a \<open>name\<close> that no built-in
  prototype defines (every property name the program reads from a submission is of that
  kind: \<^verbatim>\<open>verdict\<close>, \<^verbatim>\<open>prior_issues\<close>, \<^verbatim>\<open>new_issues\<close>, \<^verbatim>\<open>summary\<close>, \<^verbatim>\<open>id\<close>, \<^verbatim>\<open>status\<close>,
  \<^verbatim>\<open>evidence\<close>, \<^verbatim>\<open>severity\<close>, \<^verbatim>\<open>location\<close>, \<^verbatim>\<open>problem\<close>, \<^verbatim>\<open>fix\<close>). On \<^verbatim>\<open>null\<close> the access
  throws; the callers test for \<^verbatim>\<open>null\<close> first.
\<close>

fun get_prop :: "json \<Rightarrow> string \<Rightarrow> json option" where
  "get_prop (JObj fs) name = map_of fs name"
| "get_prop _ name = None"

section \<open>Jaccard similarity for dedup\<close>

definition code_unit :: "char \<Rightarrow> nat" where
  "code_unit c = of_char c"

text \<open>\<^verbatim>\<open>\w\<close> is \<^verbatim>\<open>[A-Za-z0-9_]\<close>; \<^verbatim>\<open>\s\<close> below 256 is tab, LF, VT, FF, CR, space and U+00A0.\<close>

definition is_word_char :: "char \<Rightarrow> bool" where
  "is_word_char c = (let n = code_unit c in
     (48 \<le> n \<and> n \<le> 57) \<or> (65 \<le> n \<and> n \<le> 90) \<or> n = 95 \<or> (97 \<le> n \<and> n \<le> 122))"

definition is_space_char :: "char \<Rightarrow> bool" where
  "is_space_char c = (let n = code_unit c in (9 \<le> n \<and> n \<le> 13) \<or> n = 32 \<or> n = 160)"

definition toLowerCase_char :: "char \<Rightarrow> char" where
  "toLowerCase_char c = (let n = code_unit c in
     if (65 \<le> n \<and> n \<le> 90) \<or> (192 \<le> n \<and> n \<le> 222 \<and> n \<noteq> 215)
     then char_of (n + 32) else c)"

definition toLowerCase :: "string \<Rightarrow> string" where
  "toLowerCase s = map toLowerCase_char s"

text \<open>\<^verbatim>\<open>.replace(/[^\w\s]/g, ' ')\<close>\<close>

definition replace_punct :: "string \<Rightarrow> string" where
  "replace_punct s = map (\<lambda>c. if is_word_char c \<or> is_space_char c then c else CHR '' '') s"

text \<open>\<^verbatim>\<open>.replace(/\s+/g, ' ')\<close>: every maximal run of white space becomes one space.\<close>

fun collapse_spaces :: "bool \<Rightarrow> string \<Rightarrow> string" where
  "collapse_spaces in_run [] = []"
| "collapse_spaces in_run (c # cs) =
     (if is_space_char c
      then (if in_run then collapse_spaces True cs else CHR '' '' # collapse_spaces True cs)
      else c # collapse_spaces False cs)"

definition trim :: "string \<Rightarrow> string" where
  "trim s = rev (dropWhile is_space_char (rev (dropWhile is_space_char s)))"

definition normalizeText :: "string \<Rightarrow> string" where
  "normalizeText text = trim (collapse_spaces False (replace_punct (toLowerCase text)))"

text \<open>\<^verbatim>\<open>s.split(' ')\<close>: the pieces between the separators, empty pieces included.\<close>

fun split_at :: "char \<Rightarrow> string \<Rightarrow> string \<Rightarrow> string list" where
  "split_at sep cur [] = [cur]"
| "split_at sep cur (c # cs) =
     (if c = sep then cur # split_at sep [] cs else split_at sep (cur @ [c]) cs)"

definition split :: "string \<Rightarrow> char \<Rightarrow> string list" where
  "split s sep = split_at sep [] s"

text \<open>
  A \<^verbatim>\<open>Set\<close> is the list of its elements in insertion order: \<^verbatim>\<open>add\<close> appends a value that
  is not yet there; \<^verbatim>\<open>size\<close> is the length of the list and \<^verbatim>\<open>has\<close> is membership.
\<close>

definition Set_add :: "'a list \<Rightarrow> 'a \<Rightarrow> 'a list" where
  "Set_add s x = (if x \<in> set s then s else s @ [x])"

definition new_Set :: "'a list \<Rightarrow> 'a list" where
  "new_Set xs = foldl Set_add [] xs"

definition tokenize :: "string \<Rightarrow> string list" where
  "tokenize text = new_Set (filter (\<lambda>w. w \<noteq> []) (split (normalizeText text) CHR '' ''))"

text \<open>
  The score is the quotient of two small natural numbers; the model keeps it exact. The
  program's double is the nearest double to that quotient, and comparing it with the
  double \<^verbatim>\<open>0.6\<close> agrees with comparing the exact quotient with \<open>3/5\<close> for every word
  count below \<open>2^50\<close>.
\<close>

definition jaccardSimilarity :: "string \<Rightarrow> string \<Rightarrow> rat" where
  "jaccardSimilarity a b =
     (let setA = tokenize a; setB = tokenize b in
      if length setA = 0 \<and> length setB = 0 then 1
      else
        let intersection = length (filter (\<lambda>w. w \<in> set setB) setA);
            uni = length setA + length setB - intersection
        in if uni = 0 then 0 else of_nat intersection / of_nat uni)"

section \<open>Issue ID generation\<close>

definition is_digit :: "char \<Rightarrow> bool" where
  "is_digit c = (let n = code_unit c in 48 \<le> n \<and> n \<le> 57)"

definition digits_value :: "string \<Rightarrow> nat" where
  "digits_value ds = foldl (\<lambda>n c. 10 * n + (code_unit c - 48)) 0 ds"

text \<open>
  \<^verbatim>\<open>parseInt(s, 10)\<close>: leading white space, an optional sign, then the longest run of
  digits; \<open>None\<close> is \<^verbatim>\<open>NaN\<close>. The result here is the integer the digits denote; the
  Number the program holds for it is \<open>to_Number\<close> of that integer, the same integer up to
  \<open>2^53\<close>.
\<close>

definition parseInt :: "string \<Rightarrow> int option" where
  "parseInt s =
     (let t = dropWhile is_space_char s;
          neg = (t \<noteq> [] \<and> hd t = CHR ''-'');
          u = (if t \<noteq> [] \<and> (hd t = CHR ''-'' \<or> hd t = CHR ''+'') then tl t else t);
          ds = takeWhile is_digit u
      in if ds = [] then None
         else Some (if neg then - int (digits_value ds) else int (digits_value ds)))"

text \<open>
  A Number that is not \<^verbatim>\<open>NaN\<close>, where the program may hold any integer: a finite
  double with an integer value, or one of the two infinities.
\<close>

datatype number = Num int | PosInfinity | NegInfinity

text \<open>
  The double nearest to a natural number, ties to the even significand: the number
  itself up to 53 bits, a multiple of a power of two beyond. (For a literal of more than
  20 digits an engine may read the digits after the 20th as zeros before it rounds.)
\<close>

fun bit_length :: "nat \<Rightarrow> nat" where
  "bit_length n = (if n = 0 then 0 else Suc (bit_length (n div 2)))"

declare bit_length.simps [simp del]

definition nearest_double :: "nat \<Rightarrow> nat" where
  "nearest_double n =
     (if bit_length n \<le> 53 then n
      else let e = bit_length n - 53; q = n div 2 ^ e; r = n mod 2 ^ e
           in (if 2 ^ e < 2 * r \<or> (2 * r = 2 ^ e \<and> odd q) then q + 1 else q) * 2 ^ e)"

text \<open>
  The Number of an integer: its nearest double, and an infinity when that has more than
  1024 bits, which is from \<open>2^1024\<close> on (the largest double is \<open>2^1024 - 2^971\<close>).
\<close>

definition to_Number :: "int \<Rightarrow> number" where
  "to_Number i =
     (let m = nearest_double (nat \<bar>i\<bar>) in
      if 1024 < bit_length m then (if i < 0 then NegInfinity else PosInfinity)
      else Num (if i < 0 then - int m else int m))"

text \<open>
  \<^verbatim>\<open>JSON.stringify\<close> of a Number followed by \<^verbatim>\<open>JSON.parse\<close>, which is how a Number held in
  memory comes back from a file: an infinity is written as \<^verbatim>\<open>null\<close> (\<open>None\<close>).
\<close>

definition json_number :: "number \<Rightarrow> int option" where
  "json_number n = (case n of Num i \<Rightarrow> Some i | PosInfinity \<Rightarrow> None | NegInfinity \<Rightarrow> None)"

text \<open>\<^verbatim>\<open>id.match(/ISS-(\d+)/)\<close>: the digits captured by the leftmost match.\<close>

fun match_ISS :: "string \<Rightarrow> string option" where
  "match_ISS [] = None"
| "match_ISS (c # cs) =
     (let ds = takeWhile is_digit (drop 4 (c # cs)) in
      if take 4 (c # cs) = ''ISS-'' \<and> ds \<noteq> [] then Some ds else match_ISS cs)"

fun digits_of :: "nat \<Rightarrow> string" where
  "digits_of n =
     (if n < 10 then [char_of (48 + n)] else digits_of (n div 10) @ [char_of (48 + n mod 10)])"

declare digits_of.simps [simp del]

text \<open>\<^verbatim>\<open>String(n)\<close> for an integer or \<^verbatim>\<open>NaN\<close>.\<close>

definition String_of_number :: "int option \<Rightarrow> string" where
  "String_of_number n =
     (case n of None \<Rightarrow> ''NaN''
      | Some i \<Rightarrow> if i < 0 then CHR ''-'' # digits_of (nat (- i)) else digits_of (nat i))"

definition padStart :: "string \<Rightarrow> nat \<Rightarrow> char \<Rightarrow> string" where
  "padStart s n c = replicate (n - length s) c @ s"

text \<open>\<^verbatim>\<open>Math.max(...nums)\<close> for a non-empty list: \<^verbatim>\<open>NaN\<close> as soon as one argument is.\<close>

fun Math_max :: "int option list \<Rightarrow> int option" where
  "Math_max [] = None"
| "Math_max [n] = n"
| "Math_max (n # ns) =
     (case (n, Math_max ns) of (Some a, Some b) \<Rightarrow> Some (max a b) | _ \<Rightarrow> None)"

section \<open>The issue ledger\<close>

text \<open>
  An issue as \<^verbatim>\<open>issues.json\<close> holds it. The identifier is the string \<open>nextIssueId\<close>
  made; a round number is an integer or \<^verbatim>\<open>null\<close> (\<open>None\<close>), as \<open>json_number\<close> leaves the
  Number that was assigned; every other field holds the value that was copied into it
  from a submission (the file has \<^verbatim>\<open>null\<close> where that value was a number read as
  \<^verbatim>\<open>Infinity\<close>, which is no string either). In \<open>nextIssueId\<close> the number of an identifier
  is used unrounded.
\<close>

record issue =
  issue_id :: string
  severity :: "json option"
  location :: "json option"
  problem :: "json option"
  fix_text :: "json option"
  status :: "json option"
  round_found :: "int option"
  round_resolved :: "int option"
  last_evidence :: json

definition nextIssueId :: "issue list \<Rightarrow> string" where
  "nextIssueId issues =
     (let nums = map (\<lambda>iss. case match_ISS (issue_id iss) of
                               Some m1 \<Rightarrow> parseInt m1
                             | None \<Rightarrow> Some 0) issues;
          mx = (if nums \<noteq> [] then Math_max nums else Some 0)
      in ''ISS-'' @ padStart (String_of_number (map_option (\<lambda>m. m + 1) mx)) 3 CHR ''0'')"

definition is_open :: "issue \<Rightarrow> bool" where
  "is_open iss = (status iss = Some (JStr ''open'') \<or> status iss = Some (JStr ''still-open'')
                  \<or> status iss = Some (JStr ''regressed''))"

definition getOpenBlockers :: "issue list \<Rightarrow> issue list" where
  "getOpenBlockers issues = filter (\<lambda>iss.
     (severity iss = Some (JStr ''CRITICAL'') \<or> severity iss = Some (JStr ''HIGH''))
     \<and> (status iss = Some (JStr ''open'') \<or> status iss = Some (JStr ''still-open'')
        \<or> status iss = Some (JStr ''regressed''))) issues"

section \<open>Review schema validation\<close>

definition VALID_VERDICTS :: "string list" where
  "VALID_VERDICTS = [''APPROVED'', ''REVISE'']"

definition VALID_SEVERITIES :: "string list" where
  "VALID_SEVERITIES = [''CRITICAL'', ''HIGH'', ''MEDIUM'', ''LOW'']"

definition VALID_STATUSES :: "string list" where
  "VALID_STATUSES = [''resolved'', ''still-open'', ''regressed'', ''not-applicable'']"

text \<open>\<^verbatim>\<open>S.has(v)\<close> for a set \<open>S\<close> of strings: \<open>v\<close> is a string and one of them.\<close>

definition has :: "string list \<Rightarrow> json option \<Rightarrow> bool" where
  "has S v = (case v of Some (JStr s) \<Rightarrow> s \<in> set S | _ \<Rightarrow> False)"

definition is_string :: "json option \<Rightarrow> bool" where
  "is_string v = (case v of Some (JStr s) \<Rightarrow> True | _ \<Rightarrow> False)"

text \<open>
  An error message quotes the rejected value through a template literal. Converting a
  value to a string throws a \<^verbatim>\<open>TypeError\<close> when the value is an object with an own
  property \<^verbatim>\<open>toString\<close> (which \<^verbatim>\<open>JSON.parse\<close> never makes callable), or an array that
  holds such an object. The text of the messages is not modelled.
\<close>

fun String_throws :: "json \<Rightarrow> bool" where
  "String_throws (JArr xs) = list_ex String_throws xs"
| "String_throws (JObj fs) = (map_of fs ''toString'' \<noteq> None)"
| "String_throws _ = False"

definition template_throws :: "json option \<Rightarrow> bool" where
  "template_throws v = (case v of None \<Rightarrow> False | Some x \<Rightarrow> String_throws x)"

datatype schema_error =
    VerdictInvalid
  | PriorIssuesNotArray
  | PriorIdMissing nat
  | PriorStatusInvalid nat
  | NewIssuesNotArray
  | SeverityInvalid nat
  | LocationMissing nat
  | ProblemMissing nat
  | FixMissing nat
  | SummaryNotString

datatype error =
    MissingArgument string
  | WorkspaceNotFound
  | ResponseNotFound
  | JsonExtractionFailed
  | SchemaValidationFailed "schema_error list"
  | UncaughtTypeError
  | NotAReviewWorkspace
  | CannotFinalize "string list"
  | OverrideReasonTooShort
  | ForceApproveAborted
  | CiForceRequired
  | NoPlanVersions

text \<open>The callback of \<^verbatim>\<open>obj.prior_issues.forEach\<close>, for an element that is not \<^verbatim>\<open>null\<close>.\<close>

definition validatePriorIssue :: "nat \<Rightarrow> json \<Rightarrow> schema_error list" where
  "validatePriorIssue i pi' =
     (if \<not> truthy (get_prop pi' ''id'') \<or> \<not> is_string (get_prop pi' ''id'')
      then [PriorIdMissing i] else [])
     @ (if \<not> has VALID_STATUSES (get_prop pi' ''status'') then [PriorStatusInvalid i] else [])"

definition prior_issue_throws :: "json \<Rightarrow> bool" where
  "prior_issue_throws pi' =
     (pi' = JNull
      \<or> (\<not> has VALID_STATUSES (get_prop pi' ''status'') \<and> template_throws (get_prop pi' ''status'')))"

text \<open>The callback of \<^verbatim>\<open>obj.new_issues.forEach\<close>, for an element that is not \<^verbatim>\<open>null\<close>.\<close>

definition validateNewIssue :: "nat \<Rightarrow> json \<Rightarrow> schema_error list" where
  "validateNewIssue i ni =
     (if \<not> has VALID_SEVERITIES (get_prop ni ''severity'') then [SeverityInvalid i] else [])
     @ (if \<not> truthy (get_prop ni ''location'') then [LocationMissing i] else [])
     @ (if \<not> truthy (get_prop ni ''problem'') then [ProblemMissing i] else [])
     @ (if \<not> truthy (get_prop ni ''fix'') then [FixMissing i] else [])"

definition new_issue_throws :: "json \<Rightarrow> bool" where
  "new_issue_throws ni =
     (ni = JNull
      \<or> (\<not> has VALID_SEVERITIES (get_prop ni ''severity'')
         \<and> template_throws (get_prop ni ''severity'')))"

text \<open>
  \<open>Inr errors\<close> is the list the function returns; \<open>Inl UncaughtTypeError\<close> is an
  exception thrown inside it (a property read on \<^verbatim>\<open>null\<close>, or a value that cannot be
  quoted in a message), which nothing catches.
\<close>

definition validateReviewResponse :: "json \<Rightarrow> error + schema_error list" where
  "validateReviewResponse obj =
     (if obj = JNull then Inl UncaughtTypeError
      else
        let verdict = get_prop obj ''verdict'';
            prior_issues = get_prop obj ''prior_issues'';
            new_issues = get_prop obj ''new_issues''
        in
        if (\<not> has VALID_VERDICTS verdict \<and> template_throws verdict)
           \<or> (case prior_issues of Some (JArr ps) \<Rightarrow> list_ex prior_issue_throws ps | _ \<Rightarrow> False)
           \<or> (case new_issues of Some (JArr ns) \<Rightarrow> list_ex new_issue_throws ns | _ \<Rightarrow> False)
        then Inl UncaughtTypeError
        else Inr (
          (if \<not> has VALID_VERDICTS verdict then [VerdictInvalid] else [])
          @ (case prior_issues of
               Some (JArr ps) \<Rightarrow> concat (map (\<lambda>(i, p). validatePriorIssue i p) (enumerate 0 ps))
             | _ \<Rightarrow> [PriorIssuesNotArray])
          @ (case new_issues of
               Some (JArr ns) \<Rightarrow> concat (map (\<lambda>(i, n). validateNewIssue i n) (enumerate 0 ns))
             | _ \<Rightarrow> [NewIssuesNotArray])
          @ (if \<not> is_string (get_prop obj ''summary'') then [SummaryNotString] else [])))"

section \<open>Parse reviewer response text, stripping fences if needed\<close>

text \<open>\<^verbatim>\<open>s.indexOf(pat)\<close>, \<open>None\<close> for \<open>-1\<close>.\<close>

fun indexOf :: "string \<Rightarrow> string \<Rightarrow> nat option" where
  "indexOf [] pat = (if pat = [] then Some 0 else None)"
| "indexOf (c # cs) pat =
     (if take (length pat) (c # cs) = pat then Some 0 else map_option Suc (indexOf cs pat))"

text \<open>\<^verbatim>\<open>s.lastIndexOf(ch)\<close> for a single character.\<close>

definition lastIndexOf :: "string \<Rightarrow> char \<Rightarrow> nat option" where
  "lastIndexOf s ch =
     (case indexOf (rev s) [ch] of None \<Rightarrow> None | Some j \<Rightarrow> Some (length s - 1 - j))"

definition slice :: "string \<Rightarrow> nat \<Rightarrow> nat \<Rightarrow> string" where
  "slice s start end' = take (end' - start) (drop start s)"

text \<open>
  The capture of \<^verbatim>\<open>raw.match(/```(?:json)?\s*([\s\S]*?)```/)\<close>: after the leftmost
  fence, an optional \<^verbatim>\<open>json\<close> and white space are skipped, and the capture runs to the
  next fence. (Text between the two fences that the greedy parts could give back holds no
  back-quote, so backtracking finds no other match.)
\<close>

definition fenceMatch :: "string \<Rightarrow> string option" where
  "fenceMatch raw =
     (case indexOf raw ''```'' of
        None \<Rightarrow> None
      | Some i \<Rightarrow>
          let r = drop (i + 3) raw;
              r1 = (if take 4 r = ''json'' then drop 4 r else r);
              r2 = dropWhile is_space_char r1
          in (case indexOf r2 ''```'' of None \<Rightarrow> None | Some q \<Rightarrow> Some (take q r2)))"

text \<open>
  \<^verbatim>\<open>JSON.parse\<close> is a parameter of the model: \<open>None\<close> when it throws. The three attempts
  are made in this order and the first that parses wins; \<open>None\<close> is the final \<^verbatim>\<open>throw\<close>.
\<close>

definition extractJson :: "(string \<Rightarrow> json option) \<Rightarrow> string \<Rightarrow> json option" where
  "extractJson JSON_parse raw =
     (case JSON_parse (trim raw) of
        Some v \<Rightarrow> Some v
      | None \<Rightarrow>
          (case (case fenceMatch raw of None \<Rightarrow> None | Some body \<Rightarrow> JSON_parse (trim body)) of
             Some v \<Rightarrow> Some v
           | None \<Rightarrow>
               (case (indexOf raw ''{'', lastIndexOf raw CHR ''}'') of
                  (Some start, Some end') \<Rightarrow>
                    if end' > start then JSON_parse (slice raw start (end' + 1)) else None
                | _ \<Rightarrow> None)))"

section \<open>Argument parsing\<close>

text \<open>
  The object \<^verbatim>\<open>parseArgs\<close> builds: a flag followed by a value holds the value, a flag
  followed by another flag or by nothing holds \<^verbatim>\<open>true\<close>, and \<^verbatim>\<open>_\<close> holds the
  positional arguments.
\<close>

datatype argval = Flag | Str string | Positionals "string list"

type_synonym args = "string \<rightharpoonup> argval"

text \<open>\<^verbatim>\<open>args[key] = v\<close>: the setter of \<^verbatim>\<open>__proto__\<close> ignores a string or boolean.\<close>

definition set_arg :: "args \<Rightarrow> string \<Rightarrow> argval \<Rightarrow> args" where
  "set_arg args key v = (if key = ''__proto__'' then args else args(key \<mapsto> v))"

fun parseArgs_from :: "args \<Rightarrow> string list \<Rightarrow> error + args" where
  "parseArgs_from args [] = Inr args"
| "parseArgs_from args (a # rest) =
     (if take 2 a = ''--'' then
        (case rest of
           [] \<Rightarrow> Inr (set_arg args (drop 2 a) Flag)
         | nxt # rest' \<Rightarrow>
             if take 2 nxt \<noteq> ''--''
             then parseArgs_from (set_arg args (drop 2 a) (Str nxt)) rest'
             else parseArgs_from (set_arg args (drop 2 a) Flag) rest)
      else
        (case args ''_'' of
           Some (Positionals xs) \<Rightarrow> parseArgs_from (args(''_'' \<mapsto> Positionals (xs @ [a]))) rest
         | _ \<Rightarrow> Inl UncaughtTypeError))"

definition parseArgs :: "string list \<Rightarrow> error + args" where
  "parseArgs argv = parseArgs_from (Map.empty(''_'' \<mapsto> Positionals [])) argv"

definition truthy_arg :: "argval option \<Rightarrow> bool" where
  "truthy_arg a = (case a of None \<Rightarrow> False | Some (Str s) \<Rightarrow> s \<noteq> [] | Some _ \<Rightarrow> True)"

text \<open>
  \<^verbatim>\<open>parseInt(args['round'], 10)\<close>: \<^verbatim>\<open>NaN\<close> (\<open>None\<close>) for a missing value and for \<^verbatim>\<open>true\<close>,
  \<^verbatim>\<open>Infinity\<close> for a run of digits past the largest double.
\<close>

definition parseInt_arg :: "argval option \<Rightarrow> number option" where
  "parseInt_arg a = (case a of Some (Str s) \<Rightarrow> map_option to_Number (parseInt s) | _ \<Rightarrow> None)"

section \<open>Workspace state\<close>

text \<open>
  \<^verbatim>\<open>meta.json\<close>. \<open>currentRound\<close> is what the file holds: an integer, or \<^verbatim>\<open>null\<close> (\<open>None\<close>)
  after a round whose number was an infinity.
\<close>

record meta =
  currentRound :: "int option"
  meta_verdict :: "json option"
  plannerModel :: string
  reviewerModel :: string
  completedAt :: "string option"

text \<open>
  A dedup warning. \<open>similarity\<close> is the exact score; the file holds it rounded to two
  decimals in floating point, and the advisory note is text made of the same id.
\<close>

record dedup_warning =
  new_issue_index :: nat
  possible_duplicate_of :: "string option"
  similarity :: rat

record round_output =
  round_no :: "int option"
  verdict :: "json option"
  reviewVerdict :: "json option"
  summary :: "json option"
  newIssues :: "string list"
  dedupWarnings :: "dedup_warning list"
  blockers :: "string list"

record force_approve_log =
  actor :: string
  reason :: "argval option"
  timestamp :: string
  unresolved_issues :: "string list"
  tty_confirmed :: bool
  ci_force :: bool

record severity_counts =
  critical :: nat
  high :: nat
  medium :: nat
  low :: nat

record final_summary =
  rounds :: "int option"
  summary_plannerModel :: string
  summary_reviewerModel :: string
  totalIssuesFound :: nat
  issuesBySeverity :: severity_counts
  issuesResolved :: nat
  issuesUnresolved :: nat
  finalVerdict :: string
  summary_completedAt :: string
  force_approve_log :: "force_approve_log option"

text \<open>
  The files of one workspace directory that the claims read: \<^verbatim>\<open>meta.json\<close>,
  \<^verbatim>\<open>issues.json\<close>, the \<^verbatim>\<open>round-N-output.json\<close> files, \<^verbatim>\<open>summary.json\<close> and the names of
  the \<^verbatim>\<open>plan-vN.md\<close> files. A round output is found by the Number in its file name
  (\<^verbatim>\<open>round-Infinity-output.json\<close> for an infinity). \<^verbatim>\<open>changelog.md\<close> and \<^verbatim>\<open>plan-final.md\<close>
  are text derived from these and are not modelled.
\<close>

record workspace =
  meta_json :: "meta option"
  issues_json :: "issue list option"
  round_outputs :: "number \<rightharpoonup> round_output"
  summary_json :: "final_summary option"
  plan_versions :: "string list"

text \<open>
  The file system: the workspace directories and the response files, by path. A path
  names one directory; a \<^verbatim>\<open>--workspace\<close> path that names a regular file is not
  modelled.
\<close>

record filesystem =
  dirs :: "string \<rightharpoonup> workspace"
  files :: "string \<rightharpoonup> string"

definition getIssues :: "workspace \<Rightarrow> issue list" where
  "getIssues ws = (case issues_json ws of Some issues \<Rightarrow> issues | None \<Rightarrow> [])"

definition saveIssues :: "workspace \<Rightarrow> issue list \<Rightarrow> workspace" where
  "saveIssues ws issues = ws\<lparr>issues_json := Some issues\<rparr>"

text \<open>
  What \<^verbatim>\<open>cmdInit\<close> writes into the directory it creates. Its argument checks and the
  provider-family test, which decide only whether it writes, are not modelled.
\<close>

definition init_workspace :: "string \<Rightarrow> string \<Rightarrow> workspace" where
  "init_workspace reviewer planner =
     \<lparr>meta_json = Some \<lparr>currentRound = Some 0, meta_verdict = Some (JStr ''PENDING''),
                         plannerModel = planner, reviewerModel = reviewer, completedAt = None\<rparr>,
      issues_json = Some [],
      round_outputs = Map.empty,
      summary_json = None,
      plan_versions = [''plan-v1.md'']\<rparr>"

section \<open>COMMAND: parse-round\<close>

subsection \<open>The object \<^verbatim>\<open>priorUpdateMap\<close>\<close>

text \<open>
  \<^verbatim>\<open>priorUpdateMap\<close> is an ordinary object created by \<^verbatim>\<open>{}\<close>, so reads and writes go
  through its prototype chain. The values stored are prior-issue updates, which are JSON
  objects; each is kept as the list of its properties. \<open>proto\<close> is \<open>None\<close> while the
  prototype is \<^verbatim>\<open>Object.prototype\<close>, and \<open>Some fs\<close> once an update whose id is
  \<^verbatim>\<open>__proto__\<close> was assigned: the inherited setter makes that update the prototype.
\<close>

record js_object =
  own :: "string \<rightharpoonup> (string \<times> json) list"
  proto :: "(string \<times> json) list option"

text \<open>
  \<^verbatim>\<open>m[k] = v\<close> for an object \<open>v\<close> with properties \<open>fs\<close>. The setter runs when the key
  \<^verbatim>\<open>__proto__\<close> is neither an own property nor a data property of the current prototype;
  every other write makes or overwrites an own property.
\<close>

definition obj_set :: "js_object \<Rightarrow> string \<Rightarrow> (string \<times> json) list \<Rightarrow> js_object" where
  "obj_set m k fs =
     (if k = ''__proto__'' \<and> own m k = None
         \<and> (case proto m of None \<Rightarrow> True | Some pfs \<Rightarrow> map_of pfs k = None)
      then m\<lparr>proto := Some fs\<rparr>
      else m\<lparr>own := (own m)(k \<mapsto> fs)\<rparr>)"

text \<open>The result of a read: \<open>Native\<close> is \<^verbatim>\<open>Object.prototype\<close> or one of its methods.\<close>

datatype jsval = Undefined | Native | Val json

definition Object_prototype_names :: "string list" where
  "Object_prototype_names =
     [''constructor'', ''__defineGetter__'', ''__defineSetter__'', ''hasOwnProperty'',
      ''__lookupGetter__'', ''__lookupSetter__'', ''isPrototypeOf'', ''propertyIsEnumerable'',
      ''toString'', ''valueOf'', ''toLocaleString'']"

definition obj_get :: "js_object \<Rightarrow> string \<Rightarrow> jsval" where
  "obj_get m k =
     (case own m k of
        Some fs \<Rightarrow> Val (JObj fs)
      | None \<Rightarrow>
          (case proto m of
             Some pfs \<Rightarrow>
               (case map_of pfs k of
                  Some v \<Rightarrow> Val v
                | None \<Rightarrow>
                    if k = ''__proto__'' then Val (JObj pfs)
                    else if k \<in> set Object_prototype_names then Native
                    else Undefined)
           | None \<Rightarrow>
               if k = ''__proto__'' \<or> k \<in> set Object_prototype_names then Native
               else Undefined))"

text \<open>
  \<^verbatim>\<open>for (const pu of parsed.prior_issues) priorUpdateMap[pu.id] = pu\<close>. Validation has
  established that every element is an object whose \<^verbatim>\<open>id\<close> is a string; the other cases
  do not arise.
\<close>

definition storeUpdate :: "js_object \<Rightarrow> json \<Rightarrow> js_object" where
  "storeUpdate m pu =
     (case pu of
        JObj fs \<Rightarrow> (case map_of fs ''id'' of Some (JStr k) \<Rightarrow> obj_set m k fs | _ \<Rightarrow> m)
      | _ \<Rightarrow> m)"

definition priorUpdateMap :: "json list \<Rightarrow> js_object" where
  "priorUpdateMap prior_issues = foldl storeUpdate \<lparr>own = Map.empty, proto = None\<rparr> prior_issues"

subsection \<open>Process prior issue status updates\<close>

text \<open>
  The body of the loop over \<^verbatim>\<open>issues\<close>, for one issue. \<open>rnd\<close> is the Number \<^verbatim>\<open>round\<close>;
  the issue is given as the file will hold it, so \<^verbatim>\<open>iss.round_resolved = round\<close> leaves
  \<open>json_number rnd\<close>.
\<close>

definition applyPriorUpdate :: "js_object \<Rightarrow> number \<Rightarrow> issue \<Rightarrow> issue" where
  "applyPriorUpdate m rnd iss =
     (case obj_get m (issue_id iss) of
        Undefined \<Rightarrow> iss
      | Native \<Rightarrow> iss\<lparr>status := None, last_evidence := JNull\<rparr>
      | Val update \<Rightarrow>
          if \<not> truthy (Some update) then iss
          else
            let st = get_prop update ''status'';
                ev = get_prop update ''evidence''
            in iss\<lparr>status := st,
                   round_resolved :=
                     (if st = Some (JStr ''resolved'') \<or> st = Some (JStr ''not-applicable'')
                      then json_number rnd else round_resolved iss),
                   last_evidence := (case ev of Some e \<Rightarrow> if truthy ev then e else JNull
                                               | None \<Rightarrow> JNull)\<rparr>)"

definition applyPriorUpdates :: "json list \<Rightarrow> number \<Rightarrow> issue list \<Rightarrow> issue list" where
  "applyPriorUpdates prior_issues rnd issues =
     map (applyPriorUpdate (priorUpdateMap prior_issues) rnd) issues"

subsection \<open>Dedup check on new issues\<close>

text \<open>
  The inner loop over \<^verbatim>\<open>openIssues\<close>, carrying \<^verbatim>\<open>maxSim\<close> and \<^verbatim>\<open>dupOf\<close>.
  \<^verbatim>\<open>jaccardSimilarity\<close> calls \<^verbatim>\<open>toLowerCase\<close> on both problems; on a value that is not
  a string that call throws.
\<close>

fun bestMatch :: "json option \<Rightarrow> issue list \<Rightarrow> rat \<times> string option
                  \<Rightarrow> error + (rat \<times> string option)" where
  "bestMatch p [] acc = Inr acc"
| "bestMatch p (opn # rest) (maxSim, dupOf) =
     (case (p, problem opn) of
        (Some (JStr a), Some (JStr b)) \<Rightarrow>
          (let sim = jaccardSimilarity a b in
           if sim > maxSim then bestMatch p rest (sim, Some (issue_id opn))
           else bestMatch p rest (maxSim, dupOf))
      | _ \<Rightarrow> Inl UncaughtTypeError)"

text \<open>
  The loop over \<^verbatim>\<open>parsed.new_issues\<close> from index \<open>idx\<close> on. Its state is the three
  arrays \<^verbatim>\<open>issues\<close>, \<^verbatim>\<open>assignedNewIssues\<close> and \<^verbatim>\<open>dedupWarnings\<close>; \<^verbatim>\<open>openIssues\<close> was
  filtered from \<^verbatim>\<open>issues\<close> before the loop and does not change.
\<close>

fun registerNewIssues :: "issue list \<Rightarrow> number \<Rightarrow> nat \<Rightarrow> json list
    \<Rightarrow> issue list \<times> issue list \<times> dedup_warning list
    \<Rightarrow> error + (issue list \<times> issue list \<times> dedup_warning list)" where
  "registerNewIssues openIssues rnd idx [] st = Inr st"
| "registerNewIssues openIssues rnd idx (ni # rest) (issues, assignedNewIssues, warnings) =
     (case bestMatch (get_prop ni ''problem'') openIssues (0, None) of
        Inl e \<Rightarrow> Inl e
      | Inr (maxSim, dupOf) \<Rightarrow>
          let warnings' = (if maxSim \<ge> 6 / 10
                           then warnings @ [\<lparr>new_issue_index = idx,
                                             possible_duplicate_of = dupOf,
                                             similarity = maxSim\<rparr>]
                           else warnings);
              newId = nextIssueId (issues @ assignedNewIssues);
              newIssue = \<lparr>issue_id = newId,
                          severity = get_prop ni ''severity'',
                          location = get_prop ni ''location'',
                          problem = get_prop ni ''problem'',
                          fix_text = get_prop ni ''fix'',
                          status = Some (JStr ''open''),
                          round_found = json_number rnd,
                          round_resolved = None,
                          last_evidence = JNull\<rparr>
          in registerNewIssues openIssues rnd (Suc idx) rest
               (issues @ [newIssue], assignedNewIssues @ [newIssue], warnings'))"

text \<open>The elements of a value that validation has shown to be an array.\<close>

definition elements :: "json option \<Rightarrow> json list" where
  "elements v = (case v of Some (JArr xs) \<Rightarrow> xs | _ \<Rightarrow> [])"

subsection \<open>The command\<close>

text \<open>
  \<^verbatim>\<open>cmdParseRound\<close> from the point where the workspace directory, the round number and
  the raw response text are in hand. The result is the directory as the call leaves it,
  with the error of the \<^verbatim>\<open>die\<close> or uncaught exception that ended the call, or the round
  output it wrote. \<open>rnd\<close> is the Number \<^verbatim>\<open>round\<close>; what \<^verbatim>\<open>writeJson\<close> puts into the ledger,
  the round output and \<^verbatim>\<open>meta.json\<close> for it is \<open>json_number rnd\<close>.
\<close>

definition parseRound :: "(string \<Rightarrow> json option) \<Rightarrow> workspace \<Rightarrow> number \<Rightarrow> string
    \<Rightarrow> workspace \<times> (error + round_output)" where
  "parseRound JSON_parse ws rnd raw =
     (case extractJson JSON_parse raw of
        None \<Rightarrow> (ws, Inl JsonExtractionFailed)
      | Some parsed \<Rightarrow>
         (case validateReviewResponse parsed of
            Inl e \<Rightarrow> (ws, Inl e)
          | Inr schemaErrors \<Rightarrow>
             if length schemaErrors > 0 then (ws, Inl (SchemaValidationFailed schemaErrors))
             else
               let issues = applyPriorUpdates (elements (get_prop parsed ''prior_issues'')) rnd
                              (getIssues ws);
                   openIssues = filter is_open issues
               in (case registerNewIssues openIssues rnd 0
                          (elements (get_prop parsed ''new_issues'')) (issues, [], []) of
                     Inl e \<Rightarrow> (ws, Inl e)
                   | Inr (issues', assignedNewIssues, warnings) \<Rightarrow>
                      let ws1 = saveIssues ws issues';
                          open_blockers = getOpenBlockers issues';
                          finalVerdict =
                            (if get_prop parsed ''verdict'' = Some (JStr ''APPROVED'')
                                \<and> length open_blockers > 0
                             then Some (JStr ''REVISE'') else get_prop parsed ''verdict'');
                          roundOutput = \<lparr>round_no = json_number rnd,
                                         verdict = finalVerdict,
                                         reviewVerdict = get_prop parsed ''verdict'',
                                         summary = get_prop parsed ''summary'',
                                         newIssues = map issue_id assignedNewIssues,
                                         dedupWarnings = warnings,
                                         blockers = map issue_id open_blockers\<rparr>;
                          ws2 = ws1\<lparr>round_outputs := (round_outputs ws1)(rnd \<mapsto> roundOutput)\<rparr>
                      in (case meta_json ws2 of
                            None \<Rightarrow> (ws2, Inl NotAReviewWorkspace)
                          | Some meta \<Rightarrow>
                              (ws2\<lparr>meta_json := Some (meta\<lparr>currentRound := json_number rnd,
                                                              meta_verdict := finalVerdict\<rparr>)\<rparr>,
                               Inr roundOutput)))))"

text \<open>
  The whole command: the argument and path checks, then \<open>parseRound\<close> on the directory
  that \<^verbatim>\<open>--workspace\<close> names, whose new content replaces the old. The check of the round
  number stops on \<^verbatim>\<open>NaN\<close> and on zero, and on nothing else.
\<close>

definition cmdParseRound :: "(string \<Rightarrow> json option) \<Rightarrow> filesystem \<Rightarrow> args
    \<Rightarrow> filesystem \<times> (error + round_output)" where
  "cmdParseRound JSON_parse fs args =
     (let wsDir = args ''workspace'';
          rnd = parseInt_arg (args ''round'');
          respPath = args ''response''
      in
      if \<not> truthy_arg wsDir then (fs, Inl (MissingArgument ''--workspace''))
      else if rnd = None \<or> rnd = Some (Num 0) then (fs, Inl (MissingArgument ''--round''))
      else if \<not> truthy_arg respPath then (fs, Inl (MissingArgument ''--response''))
      else
        (case (wsDir, rnd) of
           (Some (Str dir), Some r) \<Rightarrow>
             (case dirs fs dir of
                None \<Rightarrow> (fs, Inl WorkspaceNotFound)
              | Some ws \<Rightarrow>
                 (case respPath of
                    Some (Str path) \<Rightarrow>
                      (case files fs path of
                         None \<Rightarrow> (fs, Inl ResponseNotFound)
                       | Some raw \<Rightarrow>
                           (case parseRound JSON_parse ws r raw of
                              (ws', res) \<Rightarrow> (fs\<lparr>dirs := (dirs fs)(dir \<mapsto> ws')\<rparr>, res)))
                  | _ \<Rightarrow> (fs, Inl ResponseNotFound)))
         | _ \<Rightarrow> (fs, Inl WorkspaceNotFound)))"

section \<open>COMMAND: finalize\<close>

text \<open>
  What the command reads from its process: whether standard input and output are
  terminals, the line the confirmation prompt reads (trimmed; empty when the read fails),
  the actor name taken from the environment variables, and the clock.
\<close>

record env =
  stdin_isTTY :: bool
  stdout_isTTY :: bool
  confirm_input :: string
  env_actor :: string
  now :: string

text \<open>
  The checks made when blockers remain; the result is the first \<^verbatim>\<open>die\<close> reached, or
  \<open>None\<close> when the override is let through. \<^verbatim>\<open>overrideReason.length < 10\<close> compares
  \<^verbatim>\<open>undefined\<close> with 10 when the reason is \<^verbatim>\<open>true\<close>, which is false.
\<close>

definition checkOverride :: "env \<Rightarrow> issue list \<Rightarrow> argval option \<Rightarrow> bool \<Rightarrow> error option" where
  "checkOverride env open_blockers overrideReason ciForce =
     (if \<not> truthy_arg overrideReason then Some (CannotFinalize (map issue_id open_blockers))
      else if (case overrideReason of Some (Str s) \<Rightarrow> length s < 10 | _ \<Rightarrow> False)
      then Some OverrideReasonTooShort
      else
        let isTTY = (stdin_isTTY env \<and> stdout_isTTY env) in
        if isTTY \<and> \<not> ciForce
        then (if confirm_input env \<noteq> ''CONFIRM'' then Some ForceApproveAborted else None)
        else if \<not> isTTY \<or> ciForce
        then (if \<not> ciForce then Some CiForceRequired else None)
        else None)"

text \<open>
  Mark blockers as force-approved: the body of the loop, for one issue. \<open>current\<close> is
  \<^verbatim>\<open>meta.currentRound\<close> as read from \<^verbatim>\<open>meta.json\<close>.
\<close>

definition markForceApproved :: "issue list \<Rightarrow> int option \<Rightarrow> issue \<Rightarrow> issue" where
  "markForceApproved open_blockers current iss =
     (if list_ex (\<lambda>b. issue_id b = issue_id iss) open_blockers
      then iss\<lparr>status := Some (JStr ''force-approved''), round_resolved := current\<rparr>
      else iss)"

definition is_resolved :: "issue \<Rightarrow> bool" where
  "is_resolved iss = (status iss = Some (JStr ''resolved'')
                      \<or> status iss = Some (JStr ''not-applicable'')
                      \<or> status iss = Some (JStr ''force-approved''))"

definition count_severity :: "string \<Rightarrow> issue list \<Rightarrow> nat" where
  "count_severity key issues =
     length (filter (\<lambda>iss. case severity iss of Some (JStr s) \<Rightarrow> toLowerCase s = key
                                              | _ \<Rightarrow> False) issues)"

text \<open>
  \<^verbatim>\<open>cmdFinalize\<close> from the point where the workspace directory is in hand;
  \<open>overrideReason\<close> is \<^verbatim>\<open>args['override-reason']\<close> and \<open>ciForce\<close> is
  \<^verbatim>\<open>!!args['ci-force']\<close>. The ledger is saved before the plan versions are looked up and
  before the severities are counted (\<^verbatim>\<open>iss.severity.toLowerCase()\<close> throws on a severity
  that is not a string), so an error of these two kinds leaves the marked ledger behind.
\<close>

definition finalize :: "env \<Rightarrow> workspace \<Rightarrow> argval option \<Rightarrow> bool
    \<Rightarrow> workspace \<times> (error + final_summary)" where
  "finalize env ws overrideReason ciForce =
     (case meta_json ws of
        None \<Rightarrow> (ws, Inl NotAReviewWorkspace)
      | Some meta \<Rightarrow>
          let issues = getIssues ws;
              open_blockers = getOpenBlockers issues
          in
          (case (if length open_blockers > 0
                 then checkOverride env open_blockers overrideReason ciForce else None) of
             Some e \<Rightarrow> (ws, Inl e)
           | None \<Rightarrow>
               let forceApproveLog =
                     (if length open_blockers > 0
                      then Some \<lparr>actor = env_actor env,
                                 reason = overrideReason,
                                 timestamp = now env,
                                 unresolved_issues = map issue_id open_blockers,
                                 tty_confirmed = (stdin_isTTY env \<and> stdout_isTTY env \<and> \<not> ciForce),
                                 ci_force = ciForce\<rparr>
                      else None);
                   issues' = (if length open_blockers > 0
                              then map (markForceApproved open_blockers (currentRound meta)) issues
                              else issues);
                   ws1 = (if length open_blockers > 0 then saveIssues ws issues' else ws)
               in
               if plan_versions ws1 = [] then (ws1, Inl NoPlanVersions)
               else if list_ex (\<lambda>iss. \<not> is_string (severity iss)) issues'
               then (ws1, Inl UncaughtTypeError)
               else
                 let totalFound = length issues';
                     totalResolved = length (filter is_resolved issues');
                     summary' = \<lparr>rounds = currentRound meta,
                                 summary_plannerModel = plannerModel meta,
                                 summary_reviewerModel = reviewerModel meta,
                                 totalIssuesFound = totalFound,
                                 issuesBySeverity =
                                   \<lparr>critical = count_severity ''critical'' issues',
                                    high = count_severity ''high'' issues',
                                    medium = count_severity ''medium'' issues',
                                    low = count_severity ''low'' issues'\<rparr>,
                                 issuesResolved = totalResolved,
                                 issuesUnresolved = totalFound - totalResolved,
                                 finalVerdict =
                                   (if length open_blockers > 0 \<and> forceApproveLog \<noteq> None
                                    then ''FORCE_APPROVED'' else ''APPROVED''),
                                 summary_completedAt = now env,
                                 force_approve_log = forceApproveLog\<rparr>;
                     ws2 = ws1\<lparr>summary_json := Some summary'\<rparr>
                 in (ws2\<lparr>meta_json := Some (meta\<lparr>meta_verdict := Some (JStr (finalVerdict summary')),
                                                  completedAt := Some (now env)\<rparr>)\<rparr>,
                     Inr summary')))"

definition cmdFinalize :: "env \<Rightarrow> filesystem \<Rightarrow> args
    \<Rightarrow> filesystem \<times> (error + final_summary)" where
  "cmdFinalize env fs args =
     (let wsDir = args ''workspace'';
          overrideReason = args ''override-reason'';
          ciForce = truthy_arg (args ''ci-force'')
      in
      if \<not> truthy_arg wsDir then (fs, Inl (MissingArgument ''--workspace''))
      else
        (case wsDir of
           Some (Str dir) \<Rightarrow>
             (case dirs fs dir of
                None \<Rightarrow> (fs, Inl WorkspaceNotFound)
              | Some ws \<Rightarrow>
                  (case finalize env ws overrideReason ciForce of
                     (ws', res) \<Rightarrow> (fs\<lparr>dirs := (dirs fs)(dir \<mapsto> ws')\<rparr>, res)))
         | _ \<Rightarrow> (fs, Inl WorkspaceNotFound)))"

section \<open>Sequences of operations on one workspace\<close>

datatype operation =
    ParseRound number string
  | Finalize env "argval option" bool

fun step :: "(string \<Rightarrow> json option) \<Rightarrow> workspace \<Rightarrow> operation \<Rightarrow> workspace" where
  "step JSON_parse ws (ParseRound rnd raw) = fst (parseRound JSON_parse ws rnd raw)"
| "step JSON_parse ws (Finalize env overrideReason ciForce) =
     fst (finalize env ws overrideReason ciForce)"

definition run :: "(string \<Rightarrow> json option) \<Rightarrow> workspace \<Rightarrow> operation list \<Rightarrow> workspace" where
  "run JSON_parse ws ops = foldl (step JSON_parse) ws ops"

section \<open>Notions used in the statements\<close>

text \<open>
  The numeric suffix of an identifier as \<open>nextIssueId\<close> reads it, the identifier made from
  a number, and the largest suffix in a ledger (0 for the empty ledger).
\<close>

definition issue_number :: "string \<Rightarrow> nat" where
  "issue_number s = (case match_ISS s of Some m \<Rightarrow> digits_value m | None \<Rightarrow> 0)"

definition format_id :: "nat \<Rightarrow> string" where
  "format_id n = ''ISS-'' @ padStart (digits_of n) 3 CHR ''0''"

definition max_number :: "issue list \<Rightarrow> nat" where
  "max_number issues = Max (insert 0 (set (map (\<lambda>iss. issue_number (issue_id iss)) issues)))"

text \<open>The identifiers of a ledger are \<^verbatim>\<open>ISS-001\<close>, \<^verbatim>\<open>ISS-002\<close>, ... in order.\<close>

definition formatted :: "issue list \<Rightarrow> bool" where
  "formatted issues = (map issue_id issues = map format_id [1..<Suc (length issues)])"







section \<open>Example inputs\<close>

text \<open>
  Two new issues whose problem texts share five of their six words, submissions built
  from them, and prior-issue updates. \<^verbatim>\<open>JSON.parse\<close> is a parameter of the model; in the
  examples it is the table \<open>responses\<close>, in which a response text stands for the document
  listed with it.
\<close>

definition new_issue1 :: json where
  "new_issue1 = JObj [(''severity'', JStr ''CRITICAL''), (''location'', JStr ''Auth''),
     (''problem'', JStr ''No rate limiting on login endpoint''), (''fix'', JStr ''Add rate limiter'')]"

definition new_issue2 :: json where
  "new_issue2 = JObj [(''severity'', JStr ''HIGH''), (''location'', JStr ''Login''),
     (''problem'', JStr ''No rate limiting on login form''), (''fix'', JStr ''Throttle logins'')]"

definition submission :: "string \<Rightarrow> json list \<Rightarrow> json list \<Rightarrow> json" where
  "submission v prior new = JObj [(''verdict'', JStr v), (''prior_issues'', JArr prior),
     (''new_issues'', JArr new), (''summary'', JStr ''summary'')]"

definition prior_update :: "string \<Rightarrow> string \<Rightarrow> string \<Rightarrow> json" where
  "prior_update i st ev = JObj [(''id'', JStr i), (''status'', JStr st), (''evidence'', JStr ev)]"

definition smuggled :: json where
  "smuggled = submission ''REVISE''
     [JObj [(''id'', JStr ''__proto__''), (''status'', JStr ''resolved''),
            (''ISS-001'', JObj [(''status'', JStr ''force-approved'')])]] []"

definition responses :: "string \<Rightarrow> json option" where
  "responses raw =
     (if raw = ''two new issues'' then Some (submission ''REVISE'' [] [new_issue1, new_issue2])
      else if raw = ''both resolved''
      then Some (submission ''APPROVED''
                   [prior_update ''ISS-001'' ''resolved'' ''limiter added'',
                    prior_update ''ISS-002'' ''resolved'' ''limiter added''] [])
      else if raw = ''first regressed''
      then Some (submission ''REVISE'' [prior_update ''ISS-001'' ''regressed'' ''limiter removed'']
                   [new_issue2])
      else if raw = ''approved with blocker''
      then Some (submission ''APPROVED'' [prior_update ''ISS-001'' ''still-open'' ''not fixed''] [])
      else if raw = ''updated twice''
      then Some (submission ''REVISE''
                   [prior_update ''ISS-001'' ''resolved'' ''first'',
                    prior_update ''ISS-001'' ''still-open'' ''second''] [])
      else if raw = ''force-approved by reviewer''
      then Some (submission ''REVISE'' [prior_update ''ISS-001'' ''force-approved'' ''waived''] [])
      else None)"

text \<open>
  A workspace as \<^verbatim>\<open>init\<close> leaves it, the same after a first round that raised the two
  issues, three rounds in which the first issue is resolved and then reopened, and a
  process environment without a terminal.
\<close>

definition fresh :: workspace where
  "fresh = init_workspace ''openai/codex'' ''anthropic/sonnet''"

definition after_round1 :: workspace where
  "after_round1 = run responses fresh [ParseRound (Num 1) ''two new issues'']"

definition three_rounds :: "operation list" where
  "three_rounds = [ParseRound (Num 1) ''two new issues'', ParseRound (Num 2) ''both resolved'',
                   ParseRound (Num 3) ''first regressed'']"


definition ci :: env where
  "ci = \<lparr>stdin_isTTY = False, stdout_isTTY = False, confirm_input = [], env_actor = ''ci'',
         now = ''2026-01-01T00:00:00.000Z''\<rparr>"

text \<open>
  A file system with that workspace and a response file, the arguments of a
  \<^verbatim>\<open>parse-round\<close> call on them, and the command line
  \<^verbatim>\<open>finalize --workspace ws --override-reason --ci-force\<close>.
\<close>

definition example_fs :: filesystem where
  "example_fs = \<lparr>dirs = [''ws'' \<mapsto> after_round1],
                  files = [''resp.json'' \<mapsto> ''force-approved by reviewer'']\<rparr>"

definition example_args :: args where
  "example_args = [''workspace'' \<mapsto> Str ''ws'', ''round'' \<mapsto> Str ''2'',
                   ''response'' \<mapsto> Str ''resp.json'']"

definition finalize_argv :: "string list" where
  "finalize_argv = [''finalize'', ''--workspace'', ''ws'', ''--override-reason'', ''--ci-force'']"

definition finalize_fs :: filesystem where
  "finalize_fs = \<lparr>dirs = [''ws'' \<mapsto> after_round1], files = Map.empty\<rparr>"

definition args_of :: "string list \<Rightarrow> args" where
  "args_of argv = (case parseArgs argv of Inr args \<Rightarrow> args | Inl e \<Rightarrow> Map.empty)"

definition deadline :: "argval option" where
  "deadline = Some (Str ''Deadline constraint, will fix post-launch'')"

text \<open>
  A round number of 310 digits, \<open>10^309\<close>, the arguments of a first \<^verbatim>\<open>parse-round\<close> call
  with it on a fresh workspace, the workspace and the file system that a round numbered
  \<^verbatim>\<open>Infinity\<close> leaves of them, the command line of a \<^verbatim>\<open>finalize\<close> call that overrides with
  a reason of 41 characters, and the ledger of the directory \<^verbatim>\<open>ws\<close>.
\<close>

definition huge_round :: string where
  "huge_round = CHR ''1'' # replicate 309 CHR ''0''"

definition huge_round_args :: args where
  "huge_round_args = [''workspace'' \<mapsto> Str ''ws'', ''round'' \<mapsto> Str huge_round,
                      ''response'' \<mapsto> Str ''resp.json'']"

definition huge_round_fs :: filesystem where
  "huge_round_fs = \<lparr>dirs = [''ws'' \<mapsto> fresh], files = [''resp.json'' \<mapsto> ''two new issues'']\<rparr>"

definition override_argv :: "string list" where
  "override_argv = [''finalize'', ''--workspace'', ''ws'', ''--override-reason'',
                    ''Deadline constraint, will fix post-launch'', ''--ci-force'']"

definition huge_round_ws :: workspace where
  "huge_round_ws = fst (parseRound responses fresh PosInfinity ''two new issues'')"

definition huge_round_done :: filesystem where
  "huge_round_done = \<lparr>dirs = [''ws'' \<mapsto> huge_round_ws],
                       files = [''resp.json'' \<mapsto> ''two new issues'']\<rparr>"

definition ledger_of :: "filesystem \<Rightarrow> issue list" where
  "ledger_of fs = (case dirs fs ''ws'' of Some ws \<Rightarrow> getIssues ws | None \<Rightarrow> [])"

section \<open>Properties of the similarity estimator\<close>

lemma Set_add_distinct: "distinct s \<Longrightarrow> distinct (Set_add s x)"
  by (simp add: Set_add_def)

lemma foldl_Set_add_distinct: "distinct acc \<Longrightarrow> distinct (foldl Set_add acc xs)"
  by (induction xs arbitrary: acc) (simp_all add: Set_add_distinct)

lemma foldl_Set_add_set: "set (foldl Set_add acc xs) = set acc \<union> set xs"
  by (induction xs arbitrary: acc) (auto simp: Set_add_def)

lemma distinct_tokenize: "distinct (tokenize a)"
  by (simp add: tokenize_def new_Set_def foldl_Set_add_distinct)

lemma inter_count:
  assumes "distinct xs"
  shows "length (filter (\<lambda>w. w \<in> set ys) xs) = card (set xs \<inter> set ys)"
proof -
  have "set (filter (\<lambda>w. w \<in> set ys) xs) = set xs \<inter> set ys" by auto
  moreover have "distinct (filter (\<lambda>w. w \<in> set ys) xs)" using assms by simp
  ultimately show ?thesis by (metis distinct_card)
qed

lemma jaccard_card:
  "jaccardSimilarity a b =
     (if tokenize a = [] \<and> tokenize b = [] then 1
      else of_nat (card (set (tokenize a) \<inter> set (tokenize b)))
           / of_nat (card (set (tokenize a) \<union> set (tokenize b))))"
proof -
  let ?A = "tokenize a" and ?B = "tokenize b"
  have i: "length (filter (\<lambda>w. w \<in> set ?B) ?A) = card (set ?A \<inter> set ?B)"
    by (rule inter_count [OF distinct_tokenize])
  have la: "length ?A = card (set ?A)" and lb: "length ?B = card (set ?B)"
    by (simp_all add: distinct_card distinct_tokenize)
  have u: "card (set ?A) + card (set ?B) - card (set ?A \<inter> set ?B) = card (set ?A \<union> set ?B)"
    using card_Un_Int [of "set ?A" "set ?B"] by simp
  show ?thesis
    unfolding jaccardSimilarity_def Let_def i la lb u
    by (auto simp: card_eq_0_iff)
qed

lemma jaccard_sym: "jaccardSimilarity a b = jaccardSimilarity b a"
  by (simp add: jaccard_card Int_commute Un_commute conj_commute)

lemma nat_quotient_le_1: "i \<le> u \<Longrightarrow> (of_nat i :: rat) / of_nat u \<le> 1"
  by (cases "u = 0") (simp_all add: divide_le_eq_1)

lemma jaccard_bounds: "0 \<le> jaccardSimilarity a b \<and> jaccardSimilarity a b \<le> 1"
proof -
  let ?A = "set (tokenize a)" and ?B = "set (tokenize b)"
  have "card (?A \<inter> ?B) \<le> card (?A \<union> ?B)"
    by (rule card_mono) auto
  then have "(of_nat (card (?A \<inter> ?B)) :: rat) / of_nat (card (?A \<union> ?B)) \<le> 1"
    by (rule nat_quotient_le_1)
  then show ?thesis
    by (simp add: jaccard_card)
qed

lemma jaccard_same: "jaccardSimilarity a a = 1"
  by (simp add: jaccard_card card_eq_0_iff)

lemma jaccard_both_empty: "tokenize a = [] \<Longrightarrow> tokenize b = [] \<Longrightarrow> jaccardSimilarity a b = 1"
  by (simp add: jaccard_card)

lemma jaccard_one_empty:
  "(tokenize a = []) \<noteq> (tokenize b = []) \<Longrightarrow> jaccardSimilarity a b = 0"
  by (auto simp: jaccard_card)

text \<open>
  Claim C4. For all strings \<open>a\<close> and \<open>b\<close> the similarity estimator is symmetric and its
  score lies between 0 and 1; the score is 1 for two identical non-empty strings, 1 when
  both strings tokenize to the empty word set, and 0 when exactly one of them does.
\<close>

theorem C4_similarity_symmetric_bounded:
  "jaccardSimilarity a b = jaccardSimilarity b a
   \<and> 0 \<le> jaccardSimilarity a b \<and> jaccardSimilarity a b \<le> 1
   \<and> (a \<noteq> [] \<and> a = b \<longrightarrow> jaccardSimilarity a b = 1)
   \<and> (tokenize a = [] \<and> tokenize b = [] \<longrightarrow> jaccardSimilarity a b = 1)
   \<and> ((tokenize a = []) \<noteq> (tokenize b = []) \<longrightarrow> jaccardSimilarity a b = 0)"
  using jaccard_sym [of a b] jaccard_bounds [of a b] jaccard_same [of a]
    jaccard_both_empty [of a b] jaccard_one_empty [of a b]
  by blast

theorem C4_similarity_witness:
  "jaccardSimilarity ''No rate limit'' ''No rate limit'' = 1
   \<and> jaccardSimilarity ''?!'' '' '' = 1
   \<and> jaccardSimilarity ''...'' ''rate limit'' = 0
   \<and> tokenize ''?!'' = [] \<and> tokenize '' '' = [] \<and> tokenize ''...'' = []
   \<and> tokenize ''rate limit'' = [''rate'', ''limit'']"
proof -
  have t1: "tokenize ''?!'' = []" by code_simp
  have t2: "tokenize '' '' = []" by code_simp
  have t3: "tokenize ''...'' = []" by code_simp
  have t4: "tokenize ''rate limit'' = [''rate'', ''limit'']" by code_simp
  have ne: "''No rate limit'' \<noteq> []" by simp
  from C4_similarity_symmetric_bounded [of "''No rate limit''" "''No rate limit''"] ne
  have a: "jaccardSimilarity ''No rate limit'' ''No rate limit'' = 1" by blast
  from C4_similarity_symmetric_bounded [of "''?!''" "'' ''"] t1 t2
  have b: "jaccardSimilarity ''?!'' '' '' = 1" by blast
  have "(tokenize ''...'' = []) \<noteq> (tokenize ''rate limit'' = [])" by (simp add: t3 t4)
  with C4_similarity_symmetric_bounded [of "''...''" "''rate limit''"]
  have c: "jaccardSimilarity ''...'' ''rate limit'' = 0" by blast
  from a b c t1 t2 t3 t4 show ?thesis by simp
qed

section \<open>Identifiers\<close>

lemma code_unit_digit: "d < 10 \<Longrightarrow> code_unit (char_of (48 + d)) = 48 + (d::nat)"
  by (simp add: code_unit_def)

lemma is_digit_char_of: "d < 10 \<Longrightarrow> is_digit (char_of (48 + (d::nat)))"
  by (simp add: is_digit_def code_unit_digit)

lemma digits_value_snoc: "digits_value (ds @ [c]) = 10 * digits_value ds + (code_unit c - 48)"
  by (simp add: digits_value_def)

lemma digits_of_digits: "\<forall>c \<in> set (digits_of n). is_digit c"
proof (induction n rule: digits_of.induct)
  case (1 n)
  show ?case
  proof (cases "n < 10")
    case True
    then show ?thesis by (simp add: digits_of.simps [of n] is_digit_char_of)
  next
    case False
    with 1 show ?thesis by (simp add: digits_of.simps [of n] is_digit_char_of)
  qed
qed

lemma digits_of_nonempty: "digits_of n \<noteq> []"
  by (subst digits_of.simps) simp

lemma digits_value_digits_of: "digits_value (digits_of n) = n"
proof (induction n rule: digits_of.induct)
  case (1 n)
  show ?case
  proof (cases "n < 10")
    case True
    then show ?thesis by (simp add: digits_of.simps [of n] digits_value_def code_unit_digit)
  next
    case False
    with 1 show ?thesis
      by (simp add: digits_of.simps [of n] digits_value_snoc code_unit_digit)
  qed
qed

lemma is_digit_zero: "is_digit CHR ''0''" by (simp add: is_digit_def code_unit_def)

lemma digits_value_zero_prefix: "digits_value (replicate k CHR ''0'' @ ds) = digits_value ds"
proof -
  have "foldl (\<lambda>n c. 10 * n + (code_unit c - 48)) 0 (replicate k CHR ''0'') = 0"
    by (induction k) (simp_all add: code_unit_def)
  then show ?thesis by (simp add: digits_value_def)
qed

lemma digit_not_space: "is_digit c \<Longrightarrow> \<not> is_space_char c"
  by (auto simp: is_digit_def is_space_char_def Let_def)

lemma digit_not_sign: "is_digit c \<Longrightarrow> c \<noteq> CHR ''-'' \<and> c \<noteq> CHR ''+''"
  by (auto simp: is_digit_def code_unit_def Let_def)

lemma parseInt_digits:
  assumes "ds \<noteq> []" "\<forall>c \<in> set ds. is_digit c"
  shows "parseInt ds = Some (int (digits_value ds))"
proof -
  from assms have c: "is_digit (hd ds)" by (cases ds) auto
  have tw: "takeWhile is_digit ds = ds" using assms by (simp add: takeWhile_eq_all_conv)
  have dw: "dropWhile is_space_char ds = ds"
    using assms(1) digit_not_space [OF c] by (cases ds) auto
  show ?thesis
    unfolding parseInt_def Let_def dw
    using digit_not_sign [OF c] assms(1) by (simp add: tw)
qed

lemma match_ISS_digits:
  "match_ISS s = Some m \<Longrightarrow> m \<noteq> [] \<and> (\<forall>c \<in> set m. is_digit c)"
proof (induction s)
  case Nil then show ?case by simp
next
  case (Cons c cs)
  then show ?case
    by (auto simp: Let_def split: if_splits dest: set_takeWhileD)
qed

lemma match_ISS_prefix:
  assumes "ds \<noteq> []" "\<forall>c \<in> set ds. is_digit c"
  shows "match_ISS (''ISS-'' @ ds) = Some ds"
proof -
  have tw: "takeWhile is_digit ds = ds" using assms by (simp add: takeWhile_eq_all_conv)
  show ?thesis using assms(1) by (simp add: Let_def tw)
qed

lemma padded_digits:
  "padStart (digits_of n) 3 CHR ''0'' \<noteq> [] \<and> (\<forall>c \<in> set (padStart (digits_of n) 3 CHR ''0''). is_digit c)"
  using digits_of_digits [of n] digits_of_nonempty [of n]
  by (auto simp: padStart_def is_digit_zero)

lemma issue_number_format_id: "issue_number (format_id n) = n"
proof -
  let ?p = "padStart (digits_of n) 3 CHR ''0''"
  have "match_ISS (''ISS-'' @ ?p) = Some ?p"
    using padded_digits [of n] by (intro match_ISS_prefix) auto
  moreover have "digits_value ?p = n"
    by (simp add: padStart_def digits_value_zero_prefix digits_value_digits_of)
  ultimately show ?thesis
    unfolding issue_number_def format_id_def by simp
qed

lemma id_num_eq:
  "(case match_ISS s of Some m1 \<Rightarrow> parseInt m1 | None \<Rightarrow> Some 0) = Some (int (issue_number s))"
proof (cases "match_ISS s")
  case None
  then show ?thesis by (simp add: issue_number_def)
next
  case (Some m)
  with match_ISS_digits [OF Some] show ?thesis
    by (simp add: issue_number_def parseInt_digits)
qed

lemma Math_max_Some:
  "xs \<noteq> [] \<Longrightarrow> Math_max (map (\<lambda>x. Some (int (f x))) xs) = Some (int (Max (set (map f xs))))"
proof (induction xs)
  case Nil
  then show ?case by simp
next
  case (Cons x xs)
  show ?case
  proof (cases xs)
    case Nil
    then show ?thesis by simp
  next
    case (Cons y ys)
    with Cons.IH have "Math_max (map (\<lambda>x. Some (int (f x))) xs) = Some (int (Max (set (map f xs))))"
      by simp
    moreover have "Max (set (map f (x # xs))) = max (f x) (Max (set (map f xs)))"
      using Cons by (simp add: Max_insert)
    ultimately show ?thesis using Cons by (simp add: max_def)
  qed
qed

text \<open>The next identifier is made from the largest numeric suffix in the ledger, plus one.\<close>

lemma nextIssueId_eq: "nextIssueId issues = format_id (Suc (max_number issues))"
proof (cases issues)
  case Nil
  then show ?thesis
    by (simp add: nextIssueId_def max_number_def format_id_def String_of_number_def)
next
  case (Cons i rest)
  then have ne: "issues \<noteq> []" by simp
  have nums: "map (\<lambda>iss. case match_ISS (issue_id iss) of Some m1 \<Rightarrow> parseInt m1 | None \<Rightarrow> Some 0) issues
            = map (\<lambda>iss. Some (int (issue_number (issue_id iss)))) issues"
    by (simp add: id_num_eq)
  have mx: "Math_max (map (\<lambda>iss. Some (int (issue_number (issue_id iss)))) issues)
          = Some (int (Max (set (map (\<lambda>iss. issue_number (issue_id iss)) issues))))"
    by (rule Math_max_Some [OF ne])
  have m0: "Max (insert 0 (set (map (\<lambda>iss. issue_number (issue_id iss)) issues)))
          = Max (set (map (\<lambda>iss. issue_number (issue_id iss)) issues))"
    using ne by (subst Max_insert) auto
  have nat1: "nat (int k + 1) = Suc k" for k by simp
  show ?thesis
    unfolding nextIssueId_def Let_def nums max_number_def m0
    using ne by (simp add: mx String_of_number_def format_id_def nat1)
qed



lemma format_id_inj: "format_id a = format_id b \<Longrightarrow> a = b"
  by (metis issue_number_format_id)

lemma max_number_formatted:
  assumes "map issue_id issues = map format_id [1..<Suc n]"
  shows "max_number issues = n"
proof -
  have "map (\<lambda>iss. issue_number (issue_id iss)) issues = map issue_number (map issue_id issues)"
    by simp
  also have "\<dots> = [1..<Suc n]" unfolding assms by (simp add: issue_number_format_id comp_def)
  finally have "set (map (\<lambda>iss. issue_number (issue_id iss)) issues) = set [1..<Suc n]"
    by (rule arg_cong)
  then have "max_number issues = Max (insert 0 {1..<Suc n})"
    unfolding max_number_def by (simp only: set_upt)
  also have "\<dots> = n"
    by (intro Max_eqI) auto
  finally show ?thesis .
qed

lemma max_number_cong: "set xs = set ys \<Longrightarrow> max_number xs = max_number ys"
  by (simp add: max_number_def)

lemma formatted_distinct:
  assumes "formatted issues"
  shows "distinct (map issue_id issues)"
proof -
  have "inj format_id" by (rule injI) (rule format_id_inj)
  then have "inj_on format_id (set [1..<Suc (length issues)])" by (rule inj_on_subset) simp
  then have "distinct (map format_id [1..<Suc (length issues)])"
    by (simp only: distinct_map distinct_upt simp_thms)
  with assms show ?thesis by (simp only: formatted_def)
qed

section \<open>Round numbers\<close>

text \<open>
  The rounding at the first integers that are not doubles, \<open>2^53 + 1\<close> (down to the even
  significand) and \<open>2^53 + 3\<close> (up), and the Numbers of small integers.
\<close>

lemma nearest_double_examples:
  "nearest_double 9007199254740993 = 9007199254740992
   \<and> nearest_double 9007199254740995 = 9007199254740996"
  by (simp add: nearest_double_def bit_length.simps Let_def)

lemma to_Number_examples:
  "to_Number 2 = Num 2 \<and> to_Number (- 17) = Num (- 17)
   \<and> parseInt_arg (Some (Str ''12'')) = Some (Num 12)"
  by code_simp

lemma bit_length_0: "bit_length 0 = 0" by (simp add: bit_length.simps)
lemma bit_length_pos: "0 < n \<Longrightarrow> bit_length n = Suc (bit_length (n div 2))"
  by (simp add: bit_length.simps [of n])

lemma bit_length_lower: "0 < n \<Longrightarrow> 2 ^ (bit_length n - 1) \<le> n"
proof (induction n rule: bit_length.induct)
  case (1 n)
  show ?case
  proof (cases "n div 2 = 0")
    case True
    then show ?thesis using 1(2) by (simp add: bit_length_pos bit_length_0)
  next
    case False
    with 1 have ih: "2 ^ (bit_length (n div 2) - 1) \<le> n div 2" by simp
    from False have "bit_length (n div 2) = Suc (bit_length (n div 2) - 1)"
      by (simp add: bit_length_pos)
    then have "(2::nat) ^ bit_length (n div 2) = 2 * 2 ^ (bit_length (n div 2) - 1)"
      by (metis power_Suc)
    with ih have "2 ^ bit_length (n div 2) \<le> n" by presburger
    with 1(2) show ?thesis by (simp add: bit_length_pos)
  qed
qed

lemma bit_length_upper: "n < 2 ^ bit_length n"
proof (induction n rule: bit_length.induct)
  case (1 n)
  show ?case
  proof (cases "n = 0")
    case True
    then show ?thesis by (simp add: bit_length_0)
  next
    case False
    with 1 have "n div 2 < 2 ^ bit_length (n div 2)" by simp
    then have "n < 2 * 2 ^ bit_length (n div 2)" by presburger
    with False show ?thesis by (simp add: bit_length_pos)
  qed
qed

lemma bit_length_ge: "2 ^ k \<le> n \<Longrightarrow> k < bit_length n"
proof -
  assume "2 ^ k \<le> n"
  from this bit_length_upper [of n] have "(2::nat) ^ k < 2 ^ bit_length n" by (rule le_less_trans)
  then show ?thesis by (simp only: power_strict_increasing_iff rel_simps)
qed

lemma nearest_double_ge:
  assumes "2 ^ k \<le> n"
  shows "2 ^ k \<le> nearest_double n"
proof (cases "bit_length n \<le> 53")
  case True
  with assms show ?thesis by (simp add: nearest_double_def)
next
  case False
  define b where "b = bit_length n"
  define e where "e = b - 53"
  from assms have pos: "0 < n" using less_le_trans [of 0 "2 ^ k" n] by simp
  from bit_length_ge [OF assms] have kb: "k \<le> b - 1" by (simp add: b_def)
  from False have eb: "e \<le> b - 1" by (simp add: e_def b_def)
  from bit_length_lower [OF pos] have "2 ^ (b - 1) \<le> n" by (simp add: b_def)
  then have "2 ^ (b - 1) div 2 ^ e \<le> n div 2 ^ e" by (rule div_le_mono)
  moreover have "(2::nat) ^ (b - 1) div 2 ^ e = 2 ^ (b - 1 - e)"
    using eb by (simp only: power_diff [symmetric] rel_simps simp_thms)
  ultimately have "2 ^ (b - 1 - e) * 2 ^ e \<le> n div 2 ^ e * 2 ^ e" by simp
  moreover have "(2::nat) ^ (b - 1 - e) * 2 ^ e = 2 ^ (b - 1)"
    using eb by (simp add: power_add [symmetric])
  moreover have "(2::nat) ^ k \<le> 2 ^ (b - 1)" using kb by simp
  ultimately have low: "2 ^ k \<le> n div 2 ^ e * 2 ^ e" by linarith
  have "n div 2 ^ e * 2 ^ e \<le> nearest_double n"
    using False by (simp add: nearest_double_def Let_def e_def b_def)
  with low show ?thesis by linarith
qed
lemma to_Number_infinite: "2 ^ 1024 \<le> i \<Longrightarrow> to_Number i = PosInfinity"
proof -
  assume a: "2 ^ 1024 \<le> i"
  then have "(2::nat) ^ 1024 \<le> nat \<bar>i\<bar>" by (simp add: le_nat_iff)
  from bit_length_ge [OF nearest_double_ge [OF this]]
  have "1024 < bit_length (nearest_double (nat \<bar>i\<bar>))" .
  moreover from a have "\<not> i < 0" using less_le_trans [of 0 "2 ^ 1024" i] by simp
  ultimately show ?thesis by (simp add: to_Number_def)
qed

lemma digits_value_zeros: "digits_value (ds @ replicate k CHR ''0'') = digits_value ds * 10 ^ k"
proof (induction k)
  case 0
  then show ?case by simp
next
  case (Suc k)
  have "digits_value (ds @ replicate (Suc k) CHR ''0'')
        = digits_value ((ds @ replicate k CHR ''0'') @ [CHR ''0''])"
    by (simp add: replicate_append_same)
  also have "\<dots> = 10 * digits_value (ds @ replicate k CHR ''0'')"
    by (simp only: digits_value_snoc) (simp add: code_unit_def)
  finally show ?case using Suc by simp
qed

lemma parseInt_huge_round: "parseInt huge_round = Some (10 ^ 309)"
proof -
  have "is_digit CHR ''1''" by (simp add: is_digit_def code_unit_def)
  then have d: "\<forall>c \<in> set huge_round. is_digit c"
    by (auto simp: huge_round_def is_digit_zero)
  have "digits_value ([CHR ''1''] @ replicate 309 CHR ''0'') = digits_value [CHR ''1''] * 10 ^ 309"
    by (rule digits_value_zeros)
  moreover have "digits_value [CHR ''1''] = 1" by (simp add: digits_value_def code_unit_def)
  ultimately have v: "digits_value huge_round = 10 ^ 309" by (simp add: huge_round_def)
  have "huge_round \<noteq> []" by (simp add: huge_round_def)
  from parseInt_digits [OF this d] v show ?thesis by simp
qed

text \<open>A round number of 310 digits is read as \<^verbatim>\<open>Infinity\<close>.\<close>

lemma parseInt_arg_huge_round: "parseInt_arg (Some (Str huge_round)) = Some PosInfinity"
proof -
  have "(2::int) ^ 1024 \<le> 10 ^ 309" by simp
  from to_Number_infinite [OF this] show ?thesis
    by (simp add: parseInt_arg_def parseInt_huge_round)
qed

text \<open>The first \<^verbatim>\<open>parse-round\<close> call with that round number, on the fresh workspace.\<close>

lemma cmdParseRound_huge_round:
  "cmdParseRound responses huge_round_fs huge_round_args
   = (huge_round_done, snd (parseRound responses fresh PosInfinity ''two new issues''))"
proof -
  have r: "parseInt_arg (huge_round_args ''round'') = Some PosInfinity"
    by (simp add: huge_round_args_def parseInt_arg_huge_round)
  have w: "huge_round_args ''workspace'' = Some (Str ''ws'')"
    and p: "huge_round_args ''response'' = Some (Str ''resp.json'')"
    by (simp_all add: huge_round_args_def)
  have d: "dirs huge_round_fs ''ws'' = Some fresh"
    and f: "files huge_round_fs ''resp.json'' = Some ''two new issues''"
    by (simp_all add: huge_round_fs_def)
  show ?thesis
    unfolding cmdParseRound_def Let_def r w p
    by (simp add: truthy_arg_def d f case_prod_beta huge_round_done_def huge_round_ws_def
        huge_round_fs_def)
qed

section \<open>Registering new issues\<close>

lemma registerNewIssues_append:
  "registerNewIssues opn r idx ns (issues, assigned, w) = Inr (issues', assigned', w') \<Longrightarrow>
   \<exists>news. issues' = issues @ news \<and> assigned' = assigned @ news \<and> length news = length ns
     \<and> (\<forall>n \<in> set news. status n = Some (JStr ''open'') \<and> round_resolved n = None)"
proof (induction ns arbitrary: idx issues assigned w)
  case Nil
  then show ?case by simp
next
  case (Cons ni rest)
  from Cons.prems obtain maxSim dupOf where
    bm: "bestMatch (get_prop ni ''problem'') opn (0, None) = Inr (maxSim, dupOf)"
    by (auto split: sum.splits)
  define newIssue where "newIssue = \<lparr>issue_id = nextIssueId (issues @ assigned),
                          severity = get_prop ni ''severity'',
                          location = get_prop ni ''location'',
                          problem = get_prop ni ''problem'',
                          fix_text = get_prop ni ''fix'',
                          status = Some (JStr ''open''),
                          round_found = json_number r,
                          round_resolved = None,
                          last_evidence = JNull\<rparr>"
  from Cons.prems bm obtain w1 where
    rec: "registerNewIssues opn r (Suc idx) rest (issues @ [newIssue], assigned @ [newIssue], w1)
          = Inr (issues', assigned', w')"
    by (auto simp: Let_def newIssue_def split: if_splits)
  from Cons.IH [OF rec] obtain news where
    n: "issues' = (issues @ [newIssue]) @ news" "assigned' = (assigned @ [newIssue]) @ news"
       "length news = length rest"
       "\<forall>n \<in> set news. status n = Some (JStr ''open'') \<and> round_resolved n = None"
    by blast
  have "status newIssue = Some (JStr ''open'') \<and> round_resolved newIssue = None"
    by (simp add: newIssue_def)
  with n show ?case
    by (intro exI [of _ "newIssue # news"]) simp
qed

lemma registerNewIssues_formatted:
  "registerNewIssues opn r idx ns (issues, assigned, w) = Inr (issues', assigned', w') \<Longrightarrow>
   set assigned \<subseteq> set issues \<Longrightarrow>
   map issue_id issues = map format_id [1..<Suc (length issues)] \<Longrightarrow>
   map issue_id issues' = map format_id [1..<Suc (length issues')]"
proof (induction ns arbitrary: idx issues assigned w)
  case Nil
  then show ?case by simp
next
  case (Cons ni rest)
  from Cons.prems obtain maxSim dupOf where
    bm: "bestMatch (get_prop ni ''problem'') opn (0, None) = Inr (maxSim, dupOf)"
    by (auto split: sum.splits)
  define newIssue where "newIssue = \<lparr>issue_id = nextIssueId (issues @ assigned),
                          severity = get_prop ni ''severity'',
                          location = get_prop ni ''location'',
                          problem = get_prop ni ''problem'',
                          fix_text = get_prop ni ''fix'',
                          status = Some (JStr ''open''),
                          round_found = json_number r,
                          round_resolved = None,
                          last_evidence = JNull\<rparr>"
  from Cons.prems(1) bm obtain w1 where
    rec: "registerNewIssues opn r (Suc idx) rest (issues @ [newIssue], assigned @ [newIssue], w1)
          = Inr (issues', assigned', w')"
    by (auto simp: Let_def newIssue_def split: if_splits)
  have "set (issues @ assigned) = set issues" using Cons.prems(2) by auto
  then have "max_number (issues @ assigned) = max_number issues" by (rule max_number_cong)
  also have "\<dots> = length issues" by (rule max_number_formatted [OF Cons.prems(3)])
  finally have "issue_id newIssue = format_id (Suc (length issues))"
    by (simp add: newIssue_def nextIssueId_eq)
  then have f: "map issue_id (issues @ [newIssue])
                = map format_id [1..<Suc (length (issues @ [newIssue]))]"
    using Cons.prems(3) by simp
  have s: "set (assigned @ [newIssue]) \<subseteq> set (issues @ [newIssue])"
    using Cons.prems(2) by auto
  show ?case by (rule Cons.IH [OF rec s f])
qed




section \<open>Validated submissions\<close>

lemma has_VALID_VERDICTS:
  "has VALID_VERDICTS v \<longleftrightarrow> v = Some (JStr ''APPROVED'') \<or> v = Some (JStr ''REVISE'')"
  by (auto simp: has_def VALID_VERDICTS_def split: option.splits json.splits)


lemma validatePriorIssue_index: "(validatePriorIssue i p = []) = (validatePriorIssue 0 p = [])"
  by (simp add: validatePriorIssue_def)

lemma validateNewIssue_index: "(validateNewIssue i p = []) = (validateNewIssue 0 p = [])"
  by (simp add: validateNewIssue_def)

lemma concat_enumerate_Nil:
  assumes "concat (map (\<lambda>(i, p). f i p) (enumerate n xs)) = []" "x \<in> set xs"
  shows "\<exists>i. f i x = []"
proof -
  from assms(2) obtain j where j: "j < length xs" "xs ! j = x" by (auto simp: in_set_conv_nth)
  then have "(n + j, x) \<in> set (enumerate n xs)" by (auto simp: in_set_enumerate_eq)
  with assms(1) have "f (n + j) x = []" by (auto simp: concat_eq_Nil_conv)
  then show ?thesis ..
qed

lemma validated_parts:
  assumes "validateReviewResponse parsed = Inr []"
  shows "has VALID_VERDICTS (get_prop parsed ''verdict'')"
    and "\<exists>ps. get_prop parsed ''prior_issues'' = Some (JArr ps)"
    and "\<exists>ns. get_prop parsed ''new_issues'' = Some (JArr ns)"
    and "\<forall>pu \<in> set (elements (get_prop parsed ''prior_issues'')). validatePriorIssue 0 pu = []"
    and "\<forall>ni \<in> set (elements (get_prop parsed ''new_issues'')). validateNewIssue 0 ni = []"
    and "is_string (get_prop parsed ''summary'')"
proof -
  from assms have v: "has VALID_VERDICTS (get_prop parsed ''verdict'')"
    and p: "(case get_prop parsed ''prior_issues'' of
               Some (JArr ps) \<Rightarrow> concat (map (\<lambda>(i, p). validatePriorIssue i p) (enumerate 0 ps))
             | _ \<Rightarrow> [PriorIssuesNotArray]) = []"
    and n: "(case get_prop parsed ''new_issues'' of
               Some (JArr ns) \<Rightarrow> concat (map (\<lambda>(i, n). validateNewIssue i n) (enumerate 0 ns))
             | _ \<Rightarrow> [NewIssuesNotArray]) = []"
    and s: "is_string (get_prop parsed ''summary'')"
    by (auto simp: validateReviewResponse_def Let_def split: if_splits)
  show "has VALID_VERDICTS (get_prop parsed ''verdict'')" by (rule v)
  show "is_string (get_prop parsed ''summary'')" by (rule s)
  from p obtain ps where ps: "get_prop parsed ''prior_issues'' = Some (JArr ps)"
    by (auto split: option.splits json.splits)
  then show "\<exists>ps. get_prop parsed ''prior_issues'' = Some (JArr ps)" by blast
  from n obtain ns where ns: "get_prop parsed ''new_issues'' = Some (JArr ns)"
    by (auto split: option.splits json.splits)
  then show "\<exists>ns. get_prop parsed ''new_issues'' = Some (JArr ns)" by blast
  show "\<forall>pu \<in> set (elements (get_prop parsed ''prior_issues'')). validatePriorIssue 0 pu = []"
  proof
    fix pu assume "pu \<in> set (elements (get_prop parsed ''prior_issues''))"
    then have "pu \<in> set ps" by (simp add: ps elements_def)
    with p ps concat_enumerate_Nil [of validatePriorIssue 0 ps pu]
    obtain i where "validatePriorIssue i pu = []" by auto
    then show "validatePriorIssue 0 pu = []" by (simp add: validatePriorIssue_index [of i])
  qed
  show "\<forall>ni \<in> set (elements (get_prop parsed ''new_issues'')). validateNewIssue 0 ni = []"
  proof
    fix ni assume "ni \<in> set (elements (get_prop parsed ''new_issues''))"
    then have "ni \<in> set ns" by (simp add: ns elements_def)
    with n ns concat_enumerate_Nil [of validateNewIssue 0 ns ni]
    obtain i where "validateNewIssue i ni = []" by auto
    then show "validateNewIssue 0 ni = []" by (simp add: validateNewIssue_index [of i])
  qed
qed



section \<open>Prior-issue updates\<close>

lemma applyPriorUpdate_id: "issue_id (applyPriorUpdate m r iss) = issue_id iss"
  by (simp add: applyPriorUpdate_def Let_def split: jsval.splits)

lemma applyPriorUpdates_ids: "map issue_id (applyPriorUpdates ps r issues) = map issue_id issues"
  by (simp add: applyPriorUpdates_def applyPriorUpdate_id comp_def)

lemma length_applyPriorUpdates: "length (applyPriorUpdates ps r issues) = length issues"
  by (simp add: applyPriorUpdates_def)














text \<open>
  With a round number that is an infinity, a closing update leaves \<^verbatim>\<open>null\<close> where a round
  number was: \<^verbatim>\<open>ISS-001\<close>, resolved in round 2, is resolved again in a round numbered
  \<open>10^309\<close>.
\<close>

lemma infinite_round_erases_stamp:
  "map round_resolved
       (getIssues (run responses fresh [ParseRound (Num 1) ''two new issues'',
                                        ParseRound (Num 2) ''both resolved'']))
     = [Some 2, Some 2]
   \<and> map status
       (getIssues (run responses fresh [ParseRound (Num 1) ''two new issues'',
                                        ParseRound (Num 2) ''both resolved'',
                                        ParseRound PosInfinity ''both resolved'']))
     = [Some (JStr ''resolved''), Some (JStr ''resolved'')]
   \<and> map round_resolved
       (getIssues (run responses fresh [ParseRound (Num 1) ''two new issues'',
                                        ParseRound (Num 2) ''both resolved'',
                                        ParseRound PosInfinity ''both resolved'']))
     = [None, None]"
  by code_simp

text \<open>
  Why \<open>plain_ids\<close> is asked for below: an update whose id is \<^verbatim>\<open>__proto__\<close> becomes the
  prototype of \<^verbatim>\<open>priorUpdateMap\<close>, and its other properties are then found under the
  identifiers of the ledger. This validated submission gives \<^verbatim>\<open>ISS-001\<close> the status
  \<^verbatim>\<open>force-approved\<close>, which the validator rejects as a status, and no resolution round.
\<close>

lemma proto_update_bypasses_validation:
  "validateReviewResponse smuggled = Inr []
   \<and> map issue_id (applyPriorUpdates (elements (get_prop smuggled ''prior_issues'')) (Num 2)
                     (getIssues after_round1)) = [''ISS-001'', ''ISS-002'']
   \<and> map status (applyPriorUpdates (elements (get_prop smuggled ''prior_issues'')) (Num 2)
                   (getIssues after_round1))
     = [Some (JStr ''force-approved''), Some (JStr ''open'')]
   \<and> map round_resolved (applyPriorUpdates (elements (get_prop smuggled ''prior_issues'')) (Num 2)
                           (getIssues after_round1)) = [None, None]"
  by code_simp

section \<open>What the commands leave behind\<close>

text \<open>
  A call of \<open>parseRound\<close> either fails before anything is written, or saves the ledger
  and the round output; after that only a missing \<^verbatim>\<open>meta.json\<close> can still fail it.
\<close>

lemma parseRound_cases:
  assumes "parseRound P ws r raw = (ws', res)"
  obtains (failed) e where "ws' = ws" "res = Inl e"
  | (saved) parsed issues' assigned warns where
      "extractJson P raw = Some parsed"
      "validateReviewResponse parsed = Inr []"
      "registerNewIssues
         (filter is_open (applyPriorUpdates (elements (get_prop parsed ''prior_issues'')) r (getIssues ws)))
         r 0 (elements (get_prop parsed ''new_issues''))
         (applyPriorUpdates (elements (get_prop parsed ''prior_issues'')) r (getIssues ws), [], [])
       = Inr (issues', assigned, warns)"
      "getIssues ws' = issues'"
      "round_outputs ws' r = Some
         \<lparr>round_no = json_number r,
          verdict = (if get_prop parsed ''verdict'' = Some (JStr ''APPROVED'')
                        \<and> getOpenBlockers issues' \<noteq> []
                     then Some (JStr ''REVISE'') else get_prop parsed ''verdict''),
          reviewVerdict = get_prop parsed ''verdict'',
          summary = get_prop parsed ''summary'',
          newIssues = map issue_id assigned,
          dedupWarnings = warns,
          blockers = map issue_id (getOpenBlockers issues')\<rparr>"
      "res = Inl NotAReviewWorkspace \<or> res = Inr
         \<lparr>round_no = json_number r,
          verdict = (if get_prop parsed ''verdict'' = Some (JStr ''APPROVED'')
                        \<and> getOpenBlockers issues' \<noteq> []
                     then Some (JStr ''REVISE'') else get_prop parsed ''verdict''),
          reviewVerdict = get_prop parsed ''verdict'',
          summary = get_prop parsed ''summary'',
          newIssues = map issue_id assigned,
          dedupWarnings = warns,
          blockers = map issue_id (getOpenBlockers issues')\<rparr>"
      "map_option currentRound (meta_json ws') = map_option (\<lambda>m. json_number r) (meta_json ws)"
  using assms
  unfolding parseRound_def Let_def
  by (auto simp: getIssues_def saveIssues_def split: option.splits sum.splits prod.splits if_splits)

lemma parseRound_invalid:
  assumes "extractJson P raw = None
           \<or> (\<exists>obj. extractJson P raw = Some obj \<and> validateReviewResponse obj \<noteq> Inr [])"
  shows "\<exists>e. parseRound P ws r raw = (ws, Inl e)"
  using assms
  by (auto simp: parseRound_def split: option.splits sum.splits)

lemma parseRound_ids:
  "\<exists>new_ids. map issue_id (getIssues (fst (parseRound P ws r raw)))
              = map issue_id (getIssues ws) @ new_ids"
proof -
  obtain ws' res where pr: "parseRound P ws r raw = (ws', res)" by (cases "parseRound P ws r raw")
  from pr show ?thesis
  proof (cases rule: parseRound_cases)
    case (failed e)
    with pr show ?thesis by simp
  next
    case (saved parsed issues' assigned warns)
    from registerNewIssues_append [OF saved(3)] obtain news where
      "issues' = applyPriorUpdates (elements (get_prop parsed ''prior_issues'')) r (getIssues ws) @ news"
      by auto
    with saved(4) pr show ?thesis by (simp add: applyPriorUpdates_ids)
  qed
qed

lemma parseRound_formatted:
  assumes "formatted (getIssues ws)"
  shows "formatted (getIssues (fst (parseRound P ws r raw)))"
proof -
  obtain ws' res where pr: "parseRound P ws r raw = (ws', res)" by (cases "parseRound P ws r raw")
  from pr show ?thesis
  proof (cases rule: parseRound_cases)
    case (failed e)
    with pr assms show ?thesis by simp
  next
    case (saved parsed issues' assigned warns)
    let ?upd = "applyPriorUpdates (elements (get_prop parsed ''prior_issues'')) r (getIssues ws)"
    have "map issue_id ?upd = map format_id [1..<Suc (length ?upd)]"
      using assms by (simp add: formatted_def applyPriorUpdates_ids length_applyPriorUpdates)
    from registerNewIssues_formatted [OF saved(3) _ this]
    have "map issue_id issues' = map format_id [1..<Suc (length issues')]" by simp
    with saved(4) pr show ?thesis by (simp add: formatted_def)
  qed
qed



lemma markForceApproved_id: "issue_id (markForceApproved bs c iss) = issue_id iss"
  by (simp add: markForceApproved_def)


lemma finalize_issues:
  "getIssues (fst (finalize env ws rsn force)) = getIssues ws
   \<or> (\<exists>m. meta_json ws = Some m \<and> getIssues (fst (finalize env ws rsn force))
        = map (markForceApproved (getOpenBlockers (getIssues ws)) (currentRound m)) (getIssues ws))"
  unfolding finalize_def Let_def
  by (auto simp: getIssues_def saveIssues_def split: option.splits if_splits)

lemma finalize_ids:
  "map issue_id (getIssues (fst (finalize env ws rsn force))) = map issue_id (getIssues ws)"
  using finalize_issues [of env ws rsn force]
  by (auto simp: markForceApproved_id comp_def)

lemma finalize_formatted:
  assumes "formatted (getIssues ws)"
  shows "formatted (getIssues (fst (finalize env ws rsn force)))"
proof -
  have "length (getIssues (fst (finalize env ws rsn force))) = length (getIssues ws)"
    using arg_cong [OF finalize_ids [of env ws rsn force], of length] by simp
  with assms finalize_ids [of env ws rsn force] show ?thesis by (simp add: formatted_def)
qed




lemma checkOverride_Flag: "checkOverride env bs (Some Flag) True = None"
  by (simp add: checkOverride_def truthy_arg_def Let_def)

text \<open>
  With blockers and an override reason that is absent or a text, \<open>finalize\<close> fails and
  leaves the workspace as it was exactly when the reason is shorter than 10 characters
  or neither the force flag nor a confirmed terminal prompt backs it.
\<close>

lemma finalize_blocked_unless_override:
  assumes "meta_json ws = Some m"
    and "getOpenBlockers (getIssues ws) \<noteq> []"
    and "overrideReason = None \<or> overrideReason = Some (Str s)"
  shows "(\<exists>e. finalize env ws overrideReason ciForce = (ws, Inl e))
         \<longleftrightarrow> \<not> (overrideReason = Some (Str s) \<and> length s \<ge> 10
                 \<and> (ciForce \<or> (stdin_isTTY env \<and> stdout_isTTY env
                                  \<and> confirm_input env = ''CONFIRM'')))"
proof -
  let ?ok = "overrideReason = Some (Str s) \<and> length s \<ge> 10
             \<and> (ciForce \<or> (stdin_isTTY env \<and> stdout_isTTY env \<and> confirm_input env = ''CONFIRM''))"
  have chk: "checkOverride env (getOpenBlockers (getIssues ws)) overrideReason ciForce = None
             \<longleftrightarrow> ?ok"
    using assms(3) by (auto simp: checkOverride_def truthy_arg_def Let_def)
  show ?thesis
  proof (cases "checkOverride env (getOpenBlockers (getIssues ws)) overrideReason ciForce")
    case None
    then have "issues_json (fst (finalize env ws overrideReason ciForce))
               = Some (map (markForceApproved (getOpenBlockers (getIssues ws)) (currentRound m))
                         (getIssues ws))"
      using assms(1,2) unfolding finalize_def Let_def
      by (simp add: saveIssues_def)
    moreover have "map (markForceApproved (getOpenBlockers (getIssues ws)) (currentRound m))
                     (getIssues ws) \<noteq> getIssues ws"
    proof -
      from assms(2) obtain b where b: "b \<in> set (getOpenBlockers (getIssues ws))"
        by (cases "getOpenBlockers (getIssues ws)") auto
      then have bi: "b \<in> set (getIssues ws)" and bo: "status b \<noteq> Some (JStr ''force-approved'')"
        by (auto simp: getOpenBlockers_def)
      from b have "status (markForceApproved (getOpenBlockers (getIssues ws)) (currentRound m) b)
                   = Some (JStr ''force-approved'')"
        by (auto simp: markForceApproved_def list_ex_iff)
      with bo have "markForceApproved (getOpenBlockers (getIssues ws)) (currentRound m) b \<noteq> b"
        by auto
      moreover have "map f (getIssues ws) = getIssues ws \<longleftrightarrow> (\<forall>x \<in> set (getIssues ws). f x = x)"
        for f :: "issue \<Rightarrow> issue"
        using map_eq_conv [of f "getIssues ws" id] by simp
      ultimately show ?thesis using bi by blast
    qed
    ultimately have "fst (finalize env ws overrideReason ciForce) \<noteq> ws"
      by (auto simp: getIssues_def split: option.splits)
    then have "\<not> (\<exists>e. finalize env ws overrideReason ciForce = (ws, Inl e))" by auto
    with None chk show ?thesis by simp
  next
    case (Some e)
    then have "finalize env ws overrideReason ciForce = (ws, Inl e)"
      using assms(1,2) unfolding finalize_def Let_def by simp
    with Some chk show ?thesis by auto
  qed
qed

lemma step_ids:
  "\<exists>new_ids. map issue_id (getIssues (step P ws op)) = map issue_id (getIssues ws) @ new_ids"
  by (cases op) (simp_all add: parseRound_ids finalize_ids)

lemma run_ids:
  "\<exists>new_ids. map issue_id (getIssues (run P ws ops)) = map issue_id (getIssues ws) @ new_ids"
proof (induction ops arbitrary: ws)
  case Nil then show ?case by (simp add: run_def)
next
  case (Cons op ops)
  from step_ids [of P ws op] obtain a where
    a: "map issue_id (getIssues (step P ws op)) = map issue_id (getIssues ws) @ a" by blast
  from Cons.IH [of "step P ws op"] obtain b where
    b: "map issue_id (getIssues (run P (step P ws op) ops))
        = map issue_id (getIssues (step P ws op)) @ b" by blast
  have "run P ws (op # ops) = run P (step P ws op) ops" by (simp add: run_def)
  with a b show ?case by simp
qed

lemma run_append: "run P ws (ops @ ops') = run P (run P ws ops) ops'"
  by (simp add: run_def)

lemma run_formatted: "formatted (getIssues ws) \<Longrightarrow> formatted (getIssues (run P ws ops))"
proof (induction ops arbitrary: ws)
  case Nil then show ?case by (simp add: run_def)
next
  case (Cons op ops)
  have "formatted (getIssues (step P ws op))"
    using Cons.prems by (cases op) (simp_all add: parseRound_formatted finalize_formatted)
  from Cons.IH [OF this] show ?case by (simp add: run_def)
qed


section \<open>The claims\<close>

text \<open>
  Claim C1. For every processed round, the effective verdict recorded in the round
  outcome is REVISE whenever the blockers of the ledger as the round leaves it (severity
  CRITICAL or HIGH, status open, still-open or regressed) are not empty, whatever verdict
  was submitted; when there are no blockers the effective verdict is the submitted one.
  The two differ only when blockers remain and the submission said APPROVED.
\<close>

theorem C1_gating:
  assumes "parseRound P ws r raw = (ws', Inr out)"
    and "extractJson P raw = Some parsed"
  shows "round_outputs ws' r = Some out
     \<and> reviewVerdict out = get_prop parsed ''verdict''
     \<and> blockers out = map issue_id (getOpenBlockers (getIssues ws'))
     \<and> (getOpenBlockers (getIssues ws') \<noteq> [] \<longrightarrow> verdict out = Some (JStr ''REVISE''))
     \<and> (getOpenBlockers (getIssues ws') = [] \<longrightarrow> verdict out = get_prop parsed ''verdict'')
     \<and> (verdict out \<noteq> get_prop parsed ''verdict'' \<longrightarrow>
          getOpenBlockers (getIssues ws') \<noteq> [] \<and> get_prop parsed ''verdict'' = Some (JStr ''APPROVED''))"
  using assms(1)
proof (cases rule: parseRound_cases)
  case (failed e)
  then show ?thesis by simp
next
  case (saved parsed' issues' assigned warns)
  with assms(2) have p: "parsed' = parsed" by simp
  from validated_parts(1) [OF saved(2)] p
  have v: "get_prop parsed ''verdict'' = Some (JStr ''APPROVED'')
           \<or> get_prop parsed ''verdict'' = Some (JStr ''REVISE'')"
    by (simp add: has_VALID_VERDICTS)
  from saved(6) have out: "out = \<lparr>round_no = json_number r,
          verdict = (if get_prop parsed ''verdict'' = Some (JStr ''APPROVED'')
                        \<and> getOpenBlockers issues' \<noteq> []
                     then Some (JStr ''REVISE'') else get_prop parsed ''verdict''),
          reviewVerdict = get_prop parsed ''verdict'',
          summary = get_prop parsed ''summary'',
          newIssues = map issue_id assigned,
          dedupWarnings = warns,
          blockers = map issue_id (getOpenBlockers issues')\<rparr>"
    by (simp add: p)
  show ?thesis
    using v saved(4) saved(5) unfolding out p by auto
qed

text \<open>
  Witness for C1: with \<^verbatim>\<open>ISS-001\<close> and \<^verbatim>\<open>ISS-002\<close> open, a submission that says
  APPROVED is recorded as REVISE.
\<close>

theorem C1_gating_witness:
  "snd (parseRound responses after_round1 (Num 2) ''approved with blocker'')
     = Inr \<lparr>round_no = Some 2, verdict = Some (JStr ''REVISE''),
            reviewVerdict = Some (JStr ''APPROVED''), summary = Some (JStr ''summary''),
            newIssues = [], dedupWarnings = [], blockers = [''ISS-001'', ''ISS-002'']\<rparr>
   \<and> round_outputs (fst (parseRound responses after_round1 (Num 2) ''approved with blocker'')) (Num 2)
     = Some \<lparr>round_no = Some 2, verdict = Some (JStr ''REVISE''),
            reviewVerdict = Some (JStr ''APPROVED''), summary = Some (JStr ''summary''),
            newIssues = [], dedupWarnings = [], blockers = [''ISS-001'', ''ISS-002'']\<rparr>
   \<and> map issue_id (getOpenBlockers (getIssues
         (fst (parseRound responses after_round1 (Num 2) ''approved with blocker''))))
     = [''ISS-001'', ''ISS-002'']"
proof -
  let ?out = "\<lparr>round_no = Some 2, verdict = Some (JStr ''REVISE''),
            reviewVerdict = Some (JStr ''APPROVED''), summary = Some (JStr ''summary''),
            newIssues = [], dedupWarnings = [], blockers = [''ISS-001'', ''ISS-002'']\<rparr>"
  have s: "snd (parseRound responses after_round1 (Num 2) ''approved with blocker'') = Inr ?out"
    by code_simp
  then have p: "parseRound responses after_round1 (Num 2) ''approved with blocker''
                = (fst (parseRound responses after_round1 (Num 2) ''approved with blocker''), Inr ?out)"
    by (metis prod.collapse)
  have e: "extractJson responses ''approved with blocker''
           = Some (submission ''APPROVED'' [prior_update ''ISS-001'' ''still-open'' ''not fixed''] [])"
    by code_simp
  from C1_gating [OF p e]
  have "round_outputs (fst (parseRound responses after_round1 (Num 2) ''approved with blocker'')) (Num 2)
        = Some ?out"
    and "blockers ?out = map issue_id (getOpenBlockers (getIssues
           (fst (parseRound responses after_round1 (Num 2) ''approved with blocker''))))"
    by blast+
  with s show ?thesis by simp
qed

text \<open>
  Claim C2. When the response fails JSON extraction or schema validation (an exception
  thrown inside the validator included), \<^verbatim>\<open>parse-round\<close> ends with an error and the
  file system is what it was: no issue added or changed, no round outcome written.
\<close>

theorem C2_atomicity:
  assumes "args ''response'' = Some (Str path)" and "files fs path = Some raw"
    and "extractJson P raw = None
         \<or> (\<exists>obj. extractJson P raw = Some obj \<and> validateReviewResponse obj \<noteq> Inr [])"
  shows "\<exists>e. cmdParseRound P fs args = (fs, Inl e)"
proof -
  have triv: "fs\<lparr>dirs := (dirs fs)(dir \<mapsto> ws)\<rparr> = fs" if "dirs fs dir = Some ws" for dir ws
    using that by (simp add: map_upd_triv)
  have f: "fst (parseRound P ws r raw) = ws" for ws r
    using parseRound_invalid [OF assms(3), of ws r] by auto
  have e: "\<exists>e. snd (parseRound P ws r raw) = Inl e" for ws r
    using parseRound_invalid [OF assms(3), of ws r] by auto
  show ?thesis
    using assms(1,2) e
    unfolding cmdParseRound_def Let_def case_prod_beta
    by (auto simp: f triv split: option.splits argval.splits)
qed

text \<open>
  Witness for C2: a response whose prior-issue update carries the status
  \<^verbatim>\<open>force-approved\<close> fails validation and changes nothing.
\<close>

theorem C2_atomicity_witness:
  "snd (cmdParseRound responses example_fs example_args)
     = Inl (SchemaValidationFailed [PriorStatusInvalid 0])
   \<and> fst (cmdParseRound responses example_fs example_args) = example_fs"
proof -
  have a: "example_args ''response'' = Some (Str ''resp.json'')" by (simp add: example_args_def)
  have f: "files example_fs ''resp.json'' = Some ''force-approved by reviewer''"
    by (simp add: example_fs_def)
  have e: "extractJson responses ''force-approved by reviewer''
           = Some (submission ''REVISE'' [prior_update ''ISS-001'' ''force-approved'' ''waived''] [])"
    by code_simp
  have v: "validateReviewResponse
             (submission ''REVISE'' [prior_update ''ISS-001'' ''force-approved'' ''waived''] [])
           = Inr [PriorStatusInvalid 0]"
    by code_simp
  from e v have "extractJson responses ''force-approved by reviewer'' = None
     \<or> (\<exists>obj. extractJson responses ''force-approved by reviewer'' = Some obj
               \<and> validateReviewResponse obj \<noteq> Inr [])"
    by simp
  from C2_atomicity [of example_args "''resp.json''" example_fs "''force-approved by reviewer''"
         responses, OF a f this] obtain err where
    r: "cmdParseRound responses example_fs example_args = (example_fs, Inl err)" by blast
  have s: "snd (cmdParseRound responses example_fs example_args)
           = Inl (SchemaValidationFailed [PriorStatusInvalid 0])"
    by code_simp
  from r s show ?thesis by simp
qed




text \<open>
  Claim C5. In every ledger reached from an empty one by any sequence of parse-round and
  finalize operations, no two issues share an identifier; the identifiers are
  \<^verbatim>\<open>ISS-001\<close>, \<^verbatim>\<open>ISS-002\<close>, ... in the order of creation; later operations keep
  every identifier where it is, so none is freed or reused, resolved or not; and the next
  identifier is made from the largest numeric suffix in the ledger plus one.
  (Numbers are exact in the model; the program's are exact up to \<open>2^53\<close>.)
\<close>

theorem C5_identifiers:
  assumes "getIssues ws0 = []"
  shows "distinct (map issue_id (getIssues (run P ws0 ops)))
     \<and> map issue_id (getIssues (run P ws0 ops))
         = map format_id [1..<Suc (length (getIssues (run P ws0 ops)))]
     \<and> take (length (getIssues (run P ws0 ops))) (map issue_id (getIssues (run P ws0 (ops @ later))))
         = map issue_id (getIssues (run P ws0 ops))
     \<and> nextIssueId (getIssues (run P ws0 ops))
         = format_id (Suc (max_number (getIssues (run P ws0 ops))))
     \<and> max_number (getIssues (run P ws0 ops)) = length (getIssues (run P ws0 ops))"
proof -
  let ?l = "getIssues (run P ws0 ops)"
  have f0: "formatted (getIssues ws0)" by (simp add: assms formatted_def)
  have f: "formatted ?l" by (rule run_formatted [OF f0])
  from run_ids [of P "run P ws0 ops" later] obtain new_ids where
    "map issue_id (getIssues (run P ws0 (ops @ later))) = map issue_id ?l @ new_ids"
    by (auto simp: run_append)
  then have t: "take (length ?l) (map issue_id (getIssues (run P ws0 (ops @ later)))) = map issue_id ?l"
    by simp
  have m: "max_number ?l = length ?l"
    using f by (intro max_number_formatted) (simp add: formatted_def)
  show ?thesis
    using formatted_distinct [OF f] f t m by (simp add: formatted_def nextIssueId_eq)
qed

text \<open>
  Witness for C5: after \<^verbatim>\<open>ISS-002\<close> is resolved, the issue of round 3 is \<^verbatim>\<open>ISS-003\<close> and
  the next identifier is \<^verbatim>\<open>ISS-004\<close>.
\<close>

theorem C5_identifiers_witness:
  "getIssues fresh = []
   \<and> map issue_id (getIssues (run responses fresh three_rounds))
       = [''ISS-001'', ''ISS-002'', ''ISS-003'']
   \<and> map status (getIssues (run responses fresh three_rounds))
       = [Some (JStr ''regressed''), Some (JStr ''resolved''), Some (JStr ''open'')]
   \<and> distinct (map issue_id (getIssues (run responses fresh three_rounds)))
   \<and> nextIssueId (getIssues (run responses fresh three_rounds)) = ''ISS-004''"
proof -
  have g: "getIssues fresh = []" by code_simp
  have i: "map issue_id (getIssues (run responses fresh three_rounds))
           = [''ISS-001'', ''ISS-002'', ''ISS-003'']" by code_simp
  have st: "map status (getIssues (run responses fresh three_rounds))
       = [Some (JStr ''regressed''), Some (JStr ''resolved''), Some (JStr ''open'')]" by code_simp
  have f4: "format_id 4 = ''ISS-004''" by code_simp
  from C5_identifiers [OF g, of responses three_rounds "[]"]
  have d: "distinct (map issue_id (getIssues (run responses fresh three_rounds)))"
    and n: "nextIssueId (getIssues (run responses fresh three_rounds))
            = format_id (Suc (max_number (getIssues (run responses fresh three_rounds))))"
    and m: "max_number (getIssues (run responses fresh three_rounds))
            = length (getIssues (run responses fresh three_rounds))"
    by blast+
  have "length (getIssues (run responses fresh three_rounds)) = 3"
    using arg_cong [OF i, of length] by simp
  with n m f4 have "nextIssueId (getIssues (run responses fresh three_rounds)) = ''ISS-004''"
    by (simp add: eval_nat_numeral)
  with g i st d show ?thesis by simp
qed







text \<open>
  Claim C8: what the code does instead. \<^verbatim>\<open>--override-reason\<close> followed by another
  flag, or by nothing, is parsed as \<^verbatim>\<open>true\<close>; that value is not empty and its
  \<^verbatim>\<open>length\<close> is \<^verbatim>\<open>undefined\<close>, so both checks of the reason pass. With the force flag,
  finalize then force-approves every blocker although no reason of 10 characters, and no
  reason text at all, was given.
\<close>

theorem C8_reason_without_text_overrides:
  assumes "meta_json ws = Some m"
    and "getOpenBlockers (getIssues ws) \<noteq> []"
    and "plan_versions ws \<noteq> []"
    and "\<forall>iss \<in> set (getIssues ws). is_string (severity iss)"
  shows "\<exists>ws' s log. finalize env ws (Some Flag) True = (ws', Inr s)
           \<and> finalVerdict s = ''FORCE_APPROVED''
           \<and> force_approve_log s = Some log \<and> reason log = Some Flag
           \<and> getIssues ws' = map (markForceApproved (getOpenBlockers (getIssues ws)) (currentRound m))
                                 (getIssues ws)"
proof -
  let ?bs = "getOpenBlockers (getIssues ws)"
  have sev: "\<not> list_ex (\<lambda>iss. \<not> is_string (severity iss))
               (map (markForceApproved ?bs (currentRound m)) (getIssues ws))"
    using assms(4) by (auto simp: list_ex_iff markForceApproved_def)
  show ?thesis
    unfolding finalize_def Let_def
    using assms(1,2,3) sev
    by (simp add: checkOverride_Flag getIssues_def saveIssues_def)
qed

text \<open>
  The failing input of C8: \<^verbatim>\<open>finalize --workspace ws --override-reason --ci-force\<close> on a
  workspace with two open blockers.
\<close>

theorem C8_reason_without_text_witness:
  "args_of finalize_argv ''override-reason'' = Some Flag
   \<and> args_of finalize_argv ''ci-force'' = Some Flag
   \<and> args_of finalize_argv ''workspace'' = Some (Str ''ws'')
   \<and> map issue_id (getOpenBlockers (getIssues after_round1)) = [''ISS-001'', ''ISS-002'']
   \<and> map_sum id finalVerdict (snd (cmdFinalize ci finalize_fs (args_of finalize_argv)))
     = Inr ''FORCE_APPROVED''
   \<and> map_option (map status \<circ> getIssues)
       (dirs (fst (cmdFinalize ci finalize_fs (args_of finalize_argv))) ''ws'')
     = Some [Some (JStr ''force-approved''), Some (JStr ''force-approved'')]
   \<and> map_sum id finalVerdict (snd (finalize ci after_round1 (Some Flag) True))
     = Inr ''FORCE_APPROVED''"
proof -
  have a: "args_of finalize_argv ''override-reason'' = Some Flag"
    and b: "args_of finalize_argv ''ci-force'' = Some Flag"
    and c: "args_of finalize_argv ''workspace'' = Some (Str ''ws'')"
    by code_simp+
  have d: "map issue_id (getOpenBlockers (getIssues after_round1)) = [''ISS-001'', ''ISS-002'']"
    by code_simp
  have e: "map_sum id finalVerdict (snd (cmdFinalize ci finalize_fs (args_of finalize_argv)))
     = Inr ''FORCE_APPROVED''"
    by code_simp
  have f: "map_option (map status \<circ> getIssues)
       (dirs (fst (cmdFinalize ci finalize_fs (args_of finalize_argv))) ''ws'')
     = Some [Some (JStr ''force-approved''), Some (JStr ''force-approved'')]"
    by code_simp
  have h1: "meta_json after_round1 \<noteq> None" by code_simp
  then obtain m where m: "meta_json after_round1 = Some m" by blast
  have h2: "getOpenBlockers (getIssues after_round1) \<noteq> []" using d by auto
  have h3: "plan_versions after_round1 \<noteq> []" by code_simp
  have "list_all (\<lambda>iss. is_string (severity iss)) (getIssues after_round1)" by code_simp
  then have h4: "\<forall>iss \<in> set (getIssues after_round1). is_string (severity iss)"
    by (simp add: list_all_iff)
  from C8_reason_without_text_overrides [OF m h2 h3 h4, of ci]
  have g: "map_sum id finalVerdict (snd (finalize ci after_round1 (Some Flag) True))
     = Inr ''FORCE_APPROVED''"
    by auto
  from a b c d e f g show ?thesis by simp
qed

text \<open>
  Claim C9: what the code does instead. After a successful force-approval every issue
  that was a blocker has the status force-approved, the summary written to
  \<^verbatim>\<open>summary.json\<close> has the final verdict FORCE_APPROVED, and its audit record lists
  exactly the identifiers of those blockers. The \<^verbatim>\<open>round_resolved\<close> of such an issue is a
  copy of \<^verbatim>\<open>currentRound\<close> as \<^verbatim>\<open>meta.json\<close> holds it, and that is \<^verbatim>\<open>null\<close> after a round
  whose number was an infinity: the check of \<^verbatim>\<open>--round\<close> stops on \<^verbatim>\<open>NaN\<close> and on zero but
  lets \<^verbatim>\<open>Infinity\<close> through, and \<^verbatim>\<open>writeJson\<close> writes it as \<^verbatim>\<open>null\<close>. The blockers are then
  force-approved with a \<^verbatim>\<open>round_resolved\<close> of \<^verbatim>\<open>null\<close>, where the claim has a round number.
\<close>

theorem C9_force_approval_copies_meta_round:
  assumes "finalize env ws overrideReason ciForce = (ws', Inr s)"
    and "getOpenBlockers (getIssues ws) \<noteq> []"
    and "meta_json ws = Some m"
  shows "(\<forall>b \<in> set (getOpenBlockers (getIssues ws)).
            b\<lparr>status := Some (JStr ''force-approved''), round_resolved := currentRound m\<rparr>
              \<in> set (getIssues ws'))
     \<and> getIssues ws' = map (markForceApproved (getOpenBlockers (getIssues ws)) (currentRound m))
                           (getIssues ws)
     \<and> finalVerdict s = ''FORCE_APPROVED''
     \<and> summary_json ws' = Some s
     \<and> (\<exists>log. force_approve_log s = Some log
            \<and> unresolved_issues log = map issue_id (getOpenBlockers (getIssues ws)))"
proof -
  let ?bs = "getOpenBlockers (getIssues ws)"
  let ?mark = "markForceApproved ?bs (currentRound m)"
  from assms have gi: "getIssues ws' = map ?mark (getIssues ws)"
    and fv: "finalVerdict s = ''FORCE_APPROVED''"
    and sj: "summary_json ws' = Some s"
    and lg: "\<exists>log. force_approve_log s = Some log \<and> unresolved_issues log = map issue_id ?bs"
    unfolding finalize_def Let_def
    by (auto simp: getIssues_def saveIssues_def split: option.splits if_splits)
  have "\<forall>b \<in> set ?bs. ?mark b \<in> set (getIssues ws')"
    unfolding gi by (auto simp: getOpenBlockers_def)
  moreover have "\<forall>b \<in> set ?bs. ?mark b
      = b\<lparr>status := Some (JStr ''force-approved''), round_resolved := currentRound m\<rparr>"
    by (auto simp: markForceApproved_def list_ex_iff)
  ultimately show ?thesis using gi fv sj lg by simp
qed

text \<open>
  The failing input of C9: \<^verbatim>\<open>parse-round --workspace ws --round N --response resp.json\<close>
  on a fresh workspace, where \<open>N\<close> is 1 followed by 309 zeros and the response raises two
  blockers, then \<^verbatim>\<open>finalize --workspace ws --override-reason R --ci-force\<close> with a reason
  \<open>R\<close> of 41 characters. The round number is read as \<^verbatim>\<open>Infinity\<close>, \<^verbatim>\<open>meta.json\<close> holds
  \<^verbatim>\<open>null\<close> as its current round, and both blockers end force-approved with a
  \<^verbatim>\<open>round_resolved\<close> of \<^verbatim>\<open>null\<close>.
\<close>

theorem C9_infinite_round_witness:
  "length huge_round = 310
   \<and> parseInt_arg (huge_round_args ''round'') = Some PosInfinity
   \<and> fst (cmdParseRound responses huge_round_fs huge_round_args) = huge_round_done
   \<and> dirs huge_round_done ''ws'' = Some huge_round_ws
   \<and> map_sum id round_no (snd (cmdParseRound responses huge_round_fs huge_round_args)) = Inr None
   \<and> map_option currentRound (meta_json huge_round_ws) = Some None
   \<and> map issue_id (getOpenBlockers (getIssues huge_round_ws)) = [''ISS-001'', ''ISS-002'']
   \<and> args_of override_argv ''override-reason'' = deadline
   \<and> map_sum id finalVerdict (snd (cmdFinalize ci huge_round_done (args_of override_argv)))
     = Inr ''FORCE_APPROVED''
   \<and> map status (ledger_of (fst (cmdFinalize ci huge_round_done (args_of override_argv))))
     = [Some (JStr ''force-approved''), Some (JStr ''force-approved'')]
   \<and> map round_resolved (ledger_of (fst (cmdFinalize ci huge_round_done (args_of override_argv))))
     = [None, None]
   \<and> map round_resolved (getIssues (fst (finalize ci huge_round_ws deadline True)))
     = [None, None]"
proof -
  have l: "length huge_round = 310" by (simp add: huge_round_def)
  have a: "parseInt_arg (huge_round_args ''round'') = Some PosInfinity"
    by (simp add: huge_round_args_def parseInt_arg_huge_round)
  have b1: "fst (cmdParseRound responses huge_round_fs huge_round_args) = huge_round_done"
    by (simp add: cmdParseRound_huge_round)
  have b2: "dirs huge_round_done ''ws'' = Some huge_round_ws" by (simp add: huge_round_done_def)
  have "map_sum id round_no (snd (parseRound responses fresh PosInfinity ''two new issues''))
        = Inr None"
    by code_simp
  then have b: "map_sum id round_no (snd (cmdParseRound responses huge_round_fs huge_round_args))
           = Inr None"
    by (simp add: cmdParseRound_huge_round)
  have c: "map_option currentRound (meta_json huge_round_ws) = Some None" by code_simp
  have d: "map issue_id (getOpenBlockers (getIssues huge_round_ws)) = [''ISS-001'', ''ISS-002'']"
    by code_simp
  have e: "args_of override_argv ''override-reason'' = deadline" by code_simp
  have f: "map_sum id finalVerdict (snd (cmdFinalize ci huge_round_done (args_of override_argv)))
           = Inr ''FORCE_APPROVED''"
    by code_simp
  have g: "map status (ledger_of (fst (cmdFinalize ci huge_round_done (args_of override_argv))))
           = [Some (JStr ''force-approved''), Some (JStr ''force-approved'')]"
    by code_simp
  have h: "map round_resolved
             (ledger_of (fst (cmdFinalize ci huge_round_done (args_of override_argv))))
           = [None, None]"
    by code_simp
  have fv: "map_sum id finalVerdict (snd (finalize ci huge_round_ws deadline True))
            = Inr ''FORCE_APPROVED''"
    by code_simp
  have ids: "map issue_id (getIssues huge_round_ws) = [''ISS-001'', ''ISS-002'']" by code_simp
  from fv obtain s where s: "snd (finalize ci huge_round_ws deadline True) = Inr s"
    by (cases "snd (finalize ci huge_round_ws deadline True)") auto
  then have p: "finalize ci huge_round_ws deadline True
                = (fst (finalize ci huge_round_ws deadline True), Inr s)"
    by (metis prod.collapse)
  from c obtain m where m: "meta_json huge_round_ws = Some m" and cr: "currentRound m = None"
    by (cases "meta_json huge_round_ws") auto
  have h2: "getOpenBlockers (getIssues huge_round_ws) \<noteq> []" using d by auto
  have bl: "list_all (\<lambda>iss. list_ex (\<lambda>b. issue_id b = issue_id iss)
                              (getOpenBlockers (getIssues huge_round_ws)))
              (getIssues huge_round_ws)"
    by code_simp
  from C9_force_approval_copies_meta_round [OF p h2 m]
  have "getIssues (fst (finalize ci huge_round_ws deadline True))
        = map (markForceApproved (getOpenBlockers (getIssues huge_round_ws)) (currentRound m))
            (getIssues huge_round_ws)"
    by blast
  then have "map round_resolved (getIssues (fst (finalize ci huge_round_ws deadline True)))
             = map (\<lambda>iss. None) (getIssues huge_round_ws)"
    using bl by (simp add: markForceApproved_def cr list_all_iff)
  also have "\<dots> = [None, None]"
    using arg_cong [OF ids, of length] by (simp add: map_replicate_const numeral_2_eq_2)
  finally have i: "map round_resolved (getIssues (fst (finalize ci huge_round_ws deadline True)))
                   = [None, None]" .
  from l a b1 b2 b c d e f g h i show ?thesis by simp
qed



end
